theory Spec2Isabelle
  imports Complex_Main
begin

section \<open>Data model\<close>

text \<open>
  The program (src/app.py) builds notation objects of the music21 library. The objects
  are modelled as values:
  \<^item> a pitch is a step letter, an optional accidental object and an octave number;
  \<^item> an accidental carries its alteration in semitones and the two display attributes
    that \<open>fix_enharmonic_spelling\<close> writes;
  \<^item> a note is an optional pitch with a duration;
  \<^item> a measure holds the objects inserted at offset 0 (title text, clef, key) and the
    notes appended to it, both in the order of the calls.
\<close>

datatype step = StepC | StepD | StepE | StepF | StepG | StepA | StepB

record accidental =
  alter :: int
  displayStatus :: "bool option"
  displayType :: string

record pitch =
  step :: step
  accidental :: "accidental option"
  octave :: int

datatype duration = Duration_type string | Duration_quarterLength rat

record note_event =
  pitch :: "pitch option"
  duration :: duration

datatype error = IndexError | Music21Exception string

datatype 'k annotation =
    TextExpression string string
  | Clef string
  | KeyObject 'k

record 'k measure =
  annotations :: "'k annotation list"
  mnotes :: "note_event list"

datatype ('i, 'k) part_element =
    InstrumentEl 'i
  | SystemLayout bool
  | MeasureEl "'k measure"

subsection \<open>Pitch names as the library writes them\<close>

text \<open>
  \<open>pitch.name\<close> is the step letter followed by the accidental's modifier. The library
  writes a sharp as \<open>#\<close> and a flat as \<open>-\<close> (the name of B flat is \<open>B-\<close>), one
  sign per semitone; a pitch without accidental object, or with a natural one, has the
  bare letter as its name.
\<close>

fun step_letter :: "step \<Rightarrow> char" where
  "step_letter StepC = CHR ''C''"
| "step_letter StepD = CHR ''D''"
| "step_letter StepE = CHR ''E''"
| "step_letter StepF = CHR ''F''"
| "step_letter StepG = CHR ''G''"
| "step_letter StepA = CHR ''A''"
| "step_letter StepB = CHR ''B''"

definition step_of_letter :: "char \<Rightarrow> step option" where
  "step_of_letter c =
     map_of [(CHR ''C'', StepC), (CHR ''D'', StepD), (CHR ''E'', StepE), (CHR ''F'', StepF),
             (CHR ''G'', StepG), (CHR ''A'', StepA), (CHR ''B'', StepB)] c"

definition modifier :: "int \<Rightarrow> string" where
  "modifier a =
     (if 0 < a then replicate (nat a) (CHR ''#'')
      else if a < 0 then replicate (nat (- a)) (CHR ''-'')
      else [])"

definition Accidental :: "int \<Rightarrow> accidental" where
  "Accidental a = \<lparr>alter = a, displayStatus = None, displayType = ''normal''\<rparr>"

definition name :: "pitch \<Rightarrow> string" where
  "name p =
     step_letter (step p) #
       (case accidental p of None \<Rightarrow> [] | Some a \<Rightarrow> modifier (alter a))"

text \<open>
  Assigning to \<open>pitch.name\<close>: a one-letter string sets the step and removes the
  accidental; a longer string sets the step from its first letter and a new accidental
  from the rest. The modifiers understood here are the ones \<open>name\<close> produces (one to
  four \<open>#\<close> or \<open>-\<close>); any other string is reported as an error value.
\<close>

definition accidental_of_modifier :: "string \<Rightarrow> error + accidental" where
  "accidental_of_modifier m =
     (let k = int (length m) in
      if m \<noteq> [] \<and> k \<le> 4 \<and> m = replicate (length m) (CHR ''#'') then Inr (Accidental k)
      else if m \<noteq> [] \<and> k \<le> 4 \<and> m = replicate (length m) (CHR ''-'') then Inr (Accidental (- k))
      else Inl (Music21Exception m))"

definition set_name :: "string \<Rightarrow> pitch \<Rightarrow> error + pitch" where
  "set_name usrStr p =
     (case usrStr of
        [] \<Rightarrow> Inl (Music21Exception usrStr)
      | c # m \<Rightarrow>
          (case step_of_letter c of
             None \<Rightarrow> Inl (Music21Exception usrStr)
           | Some s \<Rightarrow>
               if m = [] then Inr (p\<lparr>step := s, accidental := None\<rparr>)
               else (case accidental_of_modifier m of
                       Inl e \<Rightarrow> Inl e
                     | Inr a \<Rightarrow> Inr (p\<lparr>step := s, accidental := Some a\<rparr>))))"

section \<open>Pitch Speller\<close>

text \<open>
  \<^verbatim>\<open>ENHARM_MAP = {"E#": ("F", 0), "B#": ("C", +1), "Cb": ("B", -1), "Fb": ("E", 0)}\<close>
\<close>

definition ENHARM_MAP :: "string \<rightharpoonup> string \<times> int" where
  "ENHARM_MAP =
     map_of [(''E#'', (''F'', 0)),
             (''B#'', (''C'', 1)),
             (''Cb'', (''B'', - 1)),
             (''Fb'', (''E'', 0))]"

text \<open>
  \<open>fix_enharmonic_spelling\<close> updates the note in place; the model returns the updated
  note. A note without pitch is returned as it is (the early \<open>return\<close>).
\<close>

definition fix_enharmonic_spelling :: "note_event \<Rightarrow> error + note_event" where
  "fix_enharmonic_spelling n =
     (case pitch n of
        None \<Rightarrow> Inr n
      | Some p \<Rightarrow>
          (let original_name = name p in
           case (case ENHARM_MAP original_name of
                   Some (new_name, octave_adjust) \<Rightarrow>
                     (case set_name new_name p of
                        Inl e \<Rightarrow> Inl e
                      | Inr p1 \<Rightarrow> Inr (p1\<lparr>octave := octave p1 + octave_adjust\<rparr>))
                 | None \<Rightarrow> Inr p) of
             Inl e \<Rightarrow> Inl e
           | Inr p2 \<Rightarrow>
               (case accidental p2 of
                  None \<Rightarrow> Inr (n\<lparr>pitch := Some p2\<rparr>)
                | Some a \<Rightarrow>
                    Inr (n\<lparr>pitch := Some (p2\<lparr>accidental :=
                           Some (a\<lparr>displayStatus := Some True, displayType := ''normal''\<rparr>)\<rparr>)\<rparr>))))"

section \<open>Range/Clef Resolver\<close>

text \<open>
  The function returns a dict for the piano and a tuple otherwise; the caller tells them
  apart with \<open>isinstance\<close>, the model with the constructor.
\<close>

datatype clef_octave =
    ClefDict "(string \<times> (string \<times> int)) list"
  | ClefTuple "string \<times> int"

definition instrument_map :: "(string \<times> (string \<times> int)) list" where
  "instrument_map =
     [(''Violin'', (''TrebleClef'', 3)),
      (''Viola'', (''AltoClef'', 3)),
      (''Cello'', (''BassClef'', 2)),
      (''Double Bass'', (''BassClef'', 1)),
      (''Guitar'', (''TrebleClef'', 3)),
      (''Harp'', (''TrebleClef'', 3)),
      (''Alto Saxophone'', (''TrebleClef'', 4)),
      (''Bass Clarinet'', (''TrebleClef'', 2)),
      (''Bassoon'', (''BassClef'', 2)),
      (''Clarinet'', (''TrebleClef'', 3)),
      (''English Horn'', (''TrebleClef'', 4)),
      (''Flute'', (''TrebleClef'', 4)),
      (''Oboe'', (''TrebleClef'', 4)),
      (''Piccolo'', (''TrebleClef'', 5)),
      (''Tenor Saxophone'', (''TrebleClef'', 3)),
      (''Trumpet'', (''TrebleClef'', 4)),
      (''Euphonium'', (''BassClef'', 2)),
      (''French Horn'', (''TrebleClef'', 3)),
      (''Trombone'', (''BassClef'', 2)),
      (''Tuba'', (''BassClef'', 1)),
      (''Marimba'', (''TrebleClef'', 3)),
      (''Timpani'', (''BassClef'', 3)),
      (''Vibraphone'', (''TrebleClef'', 3)),
      (''Xylophone'', (''TrebleClef'', 4)),
      (''Electric Piano'', (''TrebleClef'', 4)),
      (''Organ'', (''TrebleClef'', 4)),
      (''Voice'', (''TrebleClef'', 4))]"

definition unpitched_percussion :: "string list" where
  "unpitched_percussion =
     [''Bass Drum'', ''Cymbals'', ''Snare Drum'', ''Triangle'', ''Tambourine'']"

definition determine_clef_and_octave :: "string \<Rightarrow> string \<Rightarrow> clef_octave" where
  "determine_clef_and_octave instrument_name part =
     (if instrument_name = ''Piano''
      then ClefDict [(''right'', (''TrebleClef'', 4)), (''left'', (''BassClef'', 2))]
      else if instrument_name \<in> set unpitched_percussion
      then ClefTuple (''PercussionClef'', 4)
      else (case map_of instrument_map instrument_name of
              Some r \<Rightarrow> ClefTuple r
            | None \<Rightarrow> ClefTuple (''TrebleClef'', 4)))"

section \<open>Notes and measures\<close>

text \<open>
  \<open>note.Note(p)\<close> wraps a pitch into a note with the library's default duration of one
  quarter; \<open>stream.Measure()\<close> is an empty measure; \<open>m.insert(0, x)\<close> adds an object
  at the start of the measure and \<open>m.append(n)\<close> a note at its end.

  In the program a note keeps the pitch object it is given, and
  \<open>fix_enharmonic_spelling\<close> changes that object in place. The descending half of a
  sequence repeats the pitch objects of the ascent, so a repeated object is respelled
  once for each of its notes. Here every note has a pitch value of its own. The two
  agree because respelling twice is respelling once: section ``Shared pitch objects''
  below proves that the pitches read from a store of shared objects, after all the
  updates, are the pitches of this model.
\<close>

definition Note :: "pitch \<Rightarrow> note_event" where
  "Note p = \<lparr>pitch = Some p, duration = Duration_quarterLength 1\<rparr>"

definition Measure :: "'k measure" where
  "Measure = \<lparr>annotations = [], mnotes = []\<rparr>"

definition insert0 :: "'k annotation \<Rightarrow> 'k measure \<Rightarrow> 'k measure" where
  "insert0 x m = m\<lparr>annotations := annotations m @ [x]\<rparr>"

definition append_note :: "'k measure \<Rightarrow> note_event \<Rightarrow> 'k measure" where
  "append_note m n = m\<lparr>mnotes := mnotes m @ [n]\<rparr>"

section \<open>Scale objects\<close>

text \<open>
  \<open>create_scale_measures\<close> and \<open>create_arpeggio_measures\<close> receive a scale object and
  use its tonic and its method \<open>getPitches\<close>. The method is called with two strings,
  \<open>f"{tonic.name}{octave}"\<close>, which the library reads as pitches; in the model the
  strings are read first (\<open>named_pitch\<close> below) and the method receives the pitches
  they denote.
\<close>

record scale_object =
  tonic :: pitch
  getPitches :: "pitch \<Rightarrow> pitch \<Rightarrow> pitch list"

definition alter_of :: "pitch \<Rightarrow> int" where
  "alter_of p = (case accidental p of None \<Rightarrow> 0 | Some a \<Rightarrow> alter a)"

text \<open>The tonic's step and alteration at a given octave, with a new accidental object.\<close>

definition pitch_at :: "pitch \<Rightarrow> int \<Rightarrow> pitch" where
  "pitch_at t oct =
     \<lparr>step = step t,
      accidental = (if alter_of t = 0 then None else Some (Accidental (alter_of t))),
      octave = oct\<rparr>"

text \<open>
  The pitch that the string \<open>f"{t.name}{oct}"\<close> denotes to the library, which takes
  the digits of a pitch string as the octave and everything else as the name. For an
  octave that is not negative the string is the tonic's name followed by the octave: the
  tonic at that octave. The number of a negative octave is written with a minus sign,
  which is the library's flat sign: \<open>C-1\<close> is C flat 1. The sign joins the name and
  the digits that follow it give the octave; a name that is no pitch name with one more
  flat sign (that of a sharpened tonic, as in \<open>F#-1\<close>) is rejected.
\<close>

definition named_pitch :: "pitch \<Rightarrow> int \<Rightarrow> error + pitch" where
  "named_pitch t oct =
     (if 0 \<le> oct then Inr (pitch_at t oct)
      else set_name (name t @ ''-'') (pitch_at t (- oct)))"

text \<open>
  Modelled from the spec: \<open>scale.MajorScale(...).getPitches\<close> belongs to the music21
  library, which is not under src/. Section 4.3 of the spec describes what the program
  gets from it: the ascending major-scale pitch sequence from the tonic at
  \<open>octave_start\<close> to the tonic at \<open>octave_start + num_octaves\<close> inclusive,
  \<open>7 * num_octaves + 1\<close> pitches. Degree \<open>k\<close> of the scale lies \<open>k\<close> letters above
  the tonic (below it, for a negative \<open>k\<close>) and as many semitones above it as the major
  scale prescribes (0, 2, 4, 5, 7, 9, 11 within an octave); its accidental makes up the
  difference to the natural pitch of its letter. The method returns the pitches of the
  scale that lie between its two bounds, both included, comparing pitches by their
  height in semitones (\<open>ps\<close>, 12 for C0); given a lower bound higher than the upper
  bound, the library exchanges the two and returns the pitches from the top down.
\<close>

fun step_index :: "step \<Rightarrow> int" where
  "step_index StepC = 0"
| "step_index StepD = 1"
| "step_index StepE = 2"
| "step_index StepF = 3"
| "step_index StepG = 4"
| "step_index StepA = 5"
| "step_index StepB = 6"

fun natural_semitone :: "step \<Rightarrow> int" where
  "natural_semitone StepC = 0"
| "natural_semitone StepD = 2"
| "natural_semitone StepE = 4"
| "natural_semitone StepF = 5"
| "natural_semitone StepG = 7"
| "natural_semitone StepA = 9"
| "natural_semitone StepB = 11"

definition step_of_index :: "int \<Rightarrow> step" where
  "step_of_index i = [StepC, StepD, StepE, StepF, StepG, StepA, StepB] ! nat (i mod 7)"

definition major_offset :: "int \<Rightarrow> int" where
  "major_offset k = [0, 2, 4, 5, 7, 9, 11] ! nat (k mod 7)"

definition ps :: "pitch \<Rightarrow> int" where
  "ps p = 12 * (octave p + 1) + natural_semitone (step p) + alter_of p"

definition degree_pitch :: "pitch \<Rightarrow> int \<Rightarrow> int \<Rightarrow> pitch" where
  "degree_pitch t octave_start k =
     (let d = step_index (step t) + k;
          s = step_of_index d;
          oct = octave_start + d div 7;
          a = ps (pitch_at t octave_start) + 12 * (k div 7) + major_offset k
                - (12 * (oct + 1) + natural_semitone s)
      in \<lparr>step = s,
          accidental = (if a = 0 then None else Some (Accidental a)),
          octave = oct\<rparr>)"

text \<open>
  Modelled from the spec: the selection the library's \<open>getPitches\<close> makes, as
  described above. These are the pitches of the major scale on \<open>t\<close> whose height lies
  between \<open>lo\<close> and \<open>hi\<close>, ascending. Degree \<open>k\<close> counted from the tonic at octave 0 lies at least
  \<open>12 * (k div 7)\<close> and at most \<open>12 * (k div 7) + 11\<close> semitones above it, so the
  degrees within the bounds are among those listed (lemma \<open>scale_pitches_between_set\<close>).
\<close>

definition scale_pitches_between :: "pitch \<Rightarrow> int \<Rightarrow> int \<Rightarrow> pitch list" where
  "scale_pitches_between t lo hi =
     filter (\<lambda>p. lo \<le> ps p \<and> ps p \<le> hi)
       (map (degree_pitch t 0)
          [7 * ((lo - ps (pitch_at t 0)) div 12) - 7 .. 7 * ((hi - ps (pitch_at t 0)) div 12) + 7])"

definition MajorScale :: "pitch \<Rightarrow> scale_object" where
  "MajorScale t =
     \<lparr>tonic = t,
      getPitches = (\<lambda>minPitch maxPitch.
        if ps minPitch \<le> ps maxPitch
        then scale_pitches_between t (ps minPitch) (ps maxPitch)
        else rev (scale_pitches_between t (ps maxPitch) (ps minPitch)))\<rparr>"

section \<open>Scale Sequencer and its measures\<close>

text \<open>Lines 113 to 116 of \<open>create_scale_measures\<close>: the pitch sequence.\<close>

definition scale_all_pitches :: "scale_object \<Rightarrow> int \<Rightarrow> int \<Rightarrow> error + pitch list" where
  "scale_all_pitches scale_obj octave_start num_octaves =
     (case named_pitch (tonic scale_obj) octave_start of
        Inl e \<Rightarrow> Inl e
      | Inr minPitch \<Rightarrow>
     (case named_pitch (tonic scale_obj) (octave_start + num_octaves) of
        Inl e \<Rightarrow> Inl e
      | Inr maxPitch \<Rightarrow>
     (let pitches_up = getPitches scale_obj minPitch maxPitch;
          pitches_down = rev (butlast pitches_up);
          all_pitches = pitches_up @ pitches_down
      in Inr all_pitches)))"

text \<open>
  Lines 118 to 160: the loop over \<open>enumerate(all_pitches)\<close>. The arguments are the
  loop's variables; \<open>len\<close> is \<open>len(all_pitches)\<close> and \<open>i\<close> the index of the head of
  the remaining list. The \<open>break\<close> at the last note returns the stream without looking at
  the rest.
\<close>

fun scale_loop ::
  "string \<Rightarrow> int \<Rightarrow> int \<Rightarrow> int \<Rightarrow> pitch list \<Rightarrow> 'k measure list \<Rightarrow> 'k measure \<Rightarrow> int
     \<Rightarrow> error + 'k measure list" where
  "scale_loop title_text notes_per_measure len i [] measures_stream current_measure note_counter =
     Inr measures_stream"
| "scale_loop title_text notes_per_measure len i (p # rest) measures_stream current_measure note_counter =
     (if i = len - 1 then
        (let measures_stream =
               (if mnotes current_measure \<noteq> [] then measures_stream @ [current_measure]
                else measures_stream);
             m_whole = Measure;
             m_whole = (if i = 0 then insert0 (TextExpression title_text ''above'') m_whole
                        else m_whole)
         in case fix_enharmonic_spelling ((Note p)\<lparr>duration := Duration_type ''whole''\<rparr>) of
              Inl e \<Rightarrow> Inl e
            | Inr n \<Rightarrow> Inr (measures_stream @ [append_note m_whole n]))
      else
        (let pos_in_measure = note_counter mod notes_per_measure in
         if pos_in_measure = 0 then
           (let measures_stream =
                  (if mnotes current_measure \<noteq> [] then measures_stream @ [current_measure]
                   else measures_stream);
                current_measure = Measure;
                current_measure =
                  (if i = 0 then insert0 (TextExpression title_text ''above'') current_measure
                   else current_measure)
            in case fix_enharmonic_spelling ((Note p)\<lparr>duration := Duration_type ''quarter''\<rparr>) of
                 Inl e \<Rightarrow> Inl e
               | Inr n \<Rightarrow>
                   scale_loop title_text notes_per_measure len (i + 1) rest measures_stream
                     (append_note current_measure n) (note_counter + 1))
         else
           (case fix_enharmonic_spelling ((Note p)\<lparr>duration := Duration_type ''eighth''\<rparr>) of
              Inl e \<Rightarrow> Inl e
            | Inr n \<Rightarrow>
                scale_loop title_text notes_per_measure len (i + 1) rest measures_stream
                  (append_note current_measure n) (note_counter + 1))))"

definition pack_scale :: "string \<Rightarrow> pitch list \<Rightarrow> error + 'k measure list" where
  "pack_scale title_text all_pitches =
     scale_loop title_text 7 (int (length all_pitches)) 0 all_pitches [] Measure 0"

definition create_scale_measures ::
  "string \<Rightarrow> scale_object \<Rightarrow> int \<Rightarrow> int \<Rightarrow> error + 'k measure list" where
  "create_scale_measures title_text scale_obj octave_start num_octaves =
     (case scale_all_pitches scale_obj octave_start num_octaves of
        Inl e \<Rightarrow> Inl e
      | Inr all_pitches \<Rightarrow> pack_scale title_text all_pitches)"

section \<open>Arpeggio Sequencer and its measures\<close>

text \<open>Python's list indexing: a negative index counts from the end, an index out of range raises.\<close>

definition py_index :: "'a list \<Rightarrow> int \<Rightarrow> error + 'a" where
  "py_index xs i =
     (if 0 \<le> i \<and> i < int (length xs) then Inr (xs ! nat i)
      else if i < 0 \<and> - int (length xs) \<le> i then Inr (xs ! nat (int (length xs) + i))
      else Inl IndexError)"

text \<open>
  The body of the \<open>try\<close> for one octave index (\<open>o\<close> in the source). Its only effect is the
  \<open>extend\<close> at the end of either branch, so the body is modelled by the tones it
  extends \<open>arpeggio_up\<close> with, or by the error raised before it gets there.
\<close>

definition arpeggio_octave :: "pitch list \<Rightarrow> int \<Rightarrow> int \<Rightarrow> error + pitch list" where
  "arpeggio_octave scale_pitches num_octaves oct =
     (let base_idx = 7 * oct in
      case py_index scale_pitches (base_idx + 0) of
        Inl e \<Rightarrow> Inl e
      | Inr root_tone \<Rightarrow>
      (case py_index scale_pitches (base_idx + 2) of
        Inl e \<Rightarrow> Inl e
      | Inr third \<Rightarrow>
      (case py_index scale_pitches (base_idx + 4) of
        Inl e \<Rightarrow> Inl e
      | Inr fifth \<Rightarrow>
          if oct < num_octaves - 1 then Inr [root_tone, third, fifth]
          else (case py_index scale_pitches (base_idx + 7) of
                  Inl e \<Rightarrow> Inl e
                | Inr octave_tone \<Rightarrow> Inr [root_tone, third, fifth, octave_tone]))))"

text \<open>The loop over \<open>range(num_octaves)\<close>; \<open>except IndexError: pass\<close> keeps the list as it was.\<close>

fun arpeggio_loop :: "pitch list \<Rightarrow> int \<Rightarrow> int list \<Rightarrow> pitch list \<Rightarrow> error + pitch list" where
  "arpeggio_loop scale_pitches num_octaves [] arpeggio_up = Inr arpeggio_up"
| "arpeggio_loop scale_pitches num_octaves (oct # octs) arpeggio_up =
     (case arpeggio_octave scale_pitches num_octaves oct of
        Inr tones \<Rightarrow> arpeggio_loop scale_pitches num_octaves octs (arpeggio_up @ tones)
      | Inl IndexError \<Rightarrow> arpeggio_loop scale_pitches num_octaves octs arpeggio_up
      | Inl e \<Rightarrow> Inl e)"

definition arpeggio_up_of :: "pitch list \<Rightarrow> int \<Rightarrow> error + pitch list" where
  "arpeggio_up_of scale_pitches num_octaves =
     arpeggio_loop scale_pitches num_octaves [0 .. num_octaves - 1] []"

definition arpeggio_all_pitches :: "pitch list \<Rightarrow> int \<Rightarrow> error + pitch list" where
  "arpeggio_all_pitches scale_pitches num_octaves =
     (case arpeggio_up_of scale_pitches num_octaves of
        Inl e \<Rightarrow> Inl e
      | Inr arpeggio_up \<Rightarrow>
          (let arpeggio_down = (if length arpeggio_up > 1 then rev (butlast arpeggio_up) else [])
           in Inr (arpeggio_up @ arpeggio_down)))"

text \<open>Lines 189 to 226: the loop over \<open>enumerate(all_arpeggio_pitches)\<close>.\<close>

fun arpeggio_pack_loop ::
  "string \<Rightarrow> int \<Rightarrow> int \<Rightarrow> int \<Rightarrow> pitch list \<Rightarrow> 'k measure list \<Rightarrow> 'k measure \<Rightarrow> int
     \<Rightarrow> error + 'k measure list" where
  "arpeggio_pack_loop title_text notes_per_measure len i [] measures_stream current_measure note_counter =
     Inr measures_stream"
| "arpeggio_pack_loop title_text notes_per_measure len i (p # rest) measures_stream current_measure note_counter =
     (if i = len - 1 then
        (let measures_stream =
               (if mnotes current_measure \<noteq> [] then measures_stream @ [current_measure]
                else measures_stream);
             m_whole = Measure;
             m_whole = (if i = 0 then insert0 (TextExpression title_text ''above'') m_whole
                        else m_whole)
         in case fix_enharmonic_spelling ((Note p)\<lparr>duration := Duration_type ''whole''\<rparr>) of
              Inl e \<Rightarrow> Inl e
            | Inr n \<Rightarrow> Inr (measures_stream @ [append_note m_whole n]))
      else
        (let pos_in_measure = note_counter mod notes_per_measure;
             (measures_stream, current_measure) =
               (if pos_in_measure = 0 then
                  (let measures_stream =
                         (if mnotes current_measure \<noteq> [] then measures_stream @ [current_measure]
                          else measures_stream);
                       current_measure = Measure;
                       current_measure =
                         (if i = 0 then insert0 (TextExpression title_text ''above'') current_measure
                          else current_measure)
                   in (measures_stream, current_measure))
                else (measures_stream, current_measure))
         in case fix_enharmonic_spelling ((Note p)\<lparr>duration := Duration_type ''eighth''\<rparr>) of
              Inl e \<Rightarrow> Inl e
            | Inr n \<Rightarrow>
                arpeggio_pack_loop title_text notes_per_measure len (i + 1) rest measures_stream
                  (append_note current_measure n) (note_counter + 1)))"

definition pack_arpeggio :: "string \<Rightarrow> pitch list \<Rightarrow> error + 'k measure list" where
  "pack_arpeggio title_text all_arpeggio_pitches =
     arpeggio_pack_loop title_text 8 (int (length all_arpeggio_pitches)) 0 all_arpeggio_pitches
       [] Measure 0"

definition create_arpeggio_measures ::
  "string \<Rightarrow> scale_object \<Rightarrow> int \<Rightarrow> int \<Rightarrow> error + 'k measure list" where
  "create_arpeggio_measures title_text scale_obj octave_start num_octaves =
     (case named_pitch (tonic scale_obj) octave_start of
        Inl e \<Rightarrow> Inl e
      | Inr minPitch \<Rightarrow>
     (case named_pitch (tonic scale_obj) (octave_start + num_octaves) of
        Inl e \<Rightarrow> Inl e
      | Inr maxPitch \<Rightarrow>
     (let scale_pitches = getPitches scale_obj minPitch maxPitch
      in case arpeggio_all_pitches scale_pitches num_octaves of
           Inl e \<Rightarrow> Inl e
         | Inr all_arpeggio_pitches \<Rightarrow> pack_arpeggio title_text all_arpeggio_pitches)))"

section \<open>Exercise Assembler\<close>

text \<open>
  Three constructors of the library take a name the caller supplies and may reject it:
  \<open>instrument.fromString\<close>, \<open>key.Key\<close> and \<open>scale.MajorScale\<close>. They are
  parameters of the model, collected in a record; the instrument and key objects they
  return are opaque to the program.
\<close>

record ('i, 'k) music21 =
  instrument_fromString :: "string \<Rightarrow> error + 'i"
  key_Key :: "string \<Rightarrow> string \<Rightarrow> error + 'k"
  scale_MajorScale :: "string \<Rightarrow> error + scale_object"

text \<open>
  A part is the list of the objects put into it, in the order of the calls: the two
  \<open>part.insert(0, ...)\<close> first, then every \<open>part.append(...)\<close>.
\<close>

definition create_part_for_single_key_scales_arpeggios ::
  "('i, 'k) music21 \<Rightarrow> string \<Rightarrow> int \<Rightarrow> string \<Rightarrow> error + ('i, 'k) part_element list" where
  "create_part_for_single_key_scales_arpeggios lib key_signature num_octaves instrument_name =
     (case instrument_fromString lib instrument_name of
        Inl e \<Rightarrow> Inl e
      | Inr instr_obj \<Rightarrow>
     (let part = [InstrumentEl instr_obj, SystemLayout True] in
      case key_Key lib key_signature ''major'' of
        Inl e \<Rightarrow> Inl e
      | Inr major_key_obj \<Rightarrow>
     (case scale_MajorScale lib key_signature of
        Inl e \<Rightarrow> Inl e
      | Inr major_scale_obj \<Rightarrow>
     (let clef_octave = determine_clef_and_octave instrument_name ''right'';
          (selected_clef, octave_start) =
            (case clef_octave of
               ClefDict d \<Rightarrow>
                 (case map_of d ''right'' of Some r \<Rightarrow> r | None \<Rightarrow> (''TrebleClef'', 4))
             | ClefTuple r \<Rightarrow> r)
      in case create_scale_measures (key_signature @ '' Major Scale'') major_scale_obj
                octave_start num_octaves of
           Inl e \<Rightarrow> Inl e
         | Inr scale_measures \<Rightarrow>
     (let part =
            (case scale_measures of
               [] \<Rightarrow> part
             | first_m # others \<Rightarrow>
                 part @ map MeasureEl
                   (insert0 (KeyObject major_key_obj) (insert0 (Clef selected_clef) first_m)
                      # others));
          part = part @ [SystemLayout True]
      in case create_arpeggio_measures (key_signature @ '' Major Arpeggio'') major_scale_obj
                octave_start num_octaves of
           Inl e \<Rightarrow> Inl e
         | Inr arpeggio_measures \<Rightarrow>
             Inr (case arpeggio_measures of
                    [] \<Rightarrow> part
                  | first_arp # others \<Rightarrow>
                      part @ map MeasureEl
                        (insert0 (KeyObject major_key_obj) first_arp # others)))))))"

section \<open>Rhythm Line Builder\<close>

text \<open>
  \<^verbatim>\<open>EASIEST_NOTE_MAP = {"Piano": "C4", "Alto Saxophone": "D4", "Violin": "G3",
                      "Flute": "G4", "Clarinet": "E4"}\<close>
  The table's values are note names; the model holds the pitches they denote.
\<close>

definition natural_pitch :: "step \<Rightarrow> int \<Rightarrow> pitch" where
  "natural_pitch s oct = \<lparr>step = s, accidental = None, octave = oct\<rparr>"

definition EASIEST_NOTE_MAP :: "string \<rightharpoonup> pitch" where
  "EASIEST_NOTE_MAP =
     map_of [(''Piano'', natural_pitch StepC 4),
             (''Alto Saxophone'', natural_pitch StepD 4),
             (''Violin'', natural_pitch StepG 3),
             (''Flute'', natural_pitch StepG 4),
             (''Clarinet'', natural_pitch StepE 4)]"

text \<open>
  The duration values are fractions of a whole note; the program multiplies each by 4.
  They are modelled as rationals (a multiplication by 4 is exact in binary floating
  point, short of overflow).
\<close>

fun rhythm_notes :: "pitch \<Rightarrow> rat list \<Rightarrow> 'k measure \<Rightarrow> error + 'k measure" where
  "rhythm_notes easiest_note [] current_measure = Inr current_measure"
| "rhythm_notes easiest_note (val # vals) current_measure =
     (case fix_enharmonic_spelling (Note easiest_note) of
        Inl e \<Rightarrow> Inl e
      | Inr n \<Rightarrow>
          rhythm_notes easiest_note vals
            (append_note current_measure (n\<lparr>duration := Duration_quarterLength (val * 4)\<rparr>)))"

fun rhythm_measures ::
  "string \<Rightarrow> pitch \<Rightarrow> int \<Rightarrow> rat list list \<Rightarrow> 'k measure list \<Rightarrow> error + 'k measure list" where
  "rhythm_measures title_text easiest_note measure_index [] measures_stream = Inr measures_stream"
| "rhythm_measures title_text easiest_note measure_index (measure_durations # remaining) measures_stream =
     (let current_measure = Measure;
          current_measure =
            (if measure_index = 0 then insert0 (TextExpression title_text ''above'') current_measure
             else current_measure)
      in case rhythm_notes easiest_note measure_durations current_measure of
           Inl e \<Rightarrow> Inl e
         | Inr current_measure \<Rightarrow>
             rhythm_measures title_text easiest_note (measure_index + 1) remaining
               (measures_stream @ [current_measure]))"

definition create_custom_rhythm_part ::
  "('i, 'k) music21 \<Rightarrow> string \<Rightarrow> rat list list \<Rightarrow> string \<Rightarrow> error + ('i, 'k) part_element list" where
  "create_custom_rhythm_part lib title_text custom_rhythm instrument_name =
     (case instrument_fromString lib instrument_name of
        Inl e \<Rightarrow> Inl e
      | Inr instr_obj \<Rightarrow>
     (let part = [InstrumentEl instr_obj, SystemLayout True];
          easiest_note = (case EASIEST_NOTE_MAP instrument_name of
                            Some p \<Rightarrow> p
                          | None \<Rightarrow> natural_pitch StepC 4)
      in case rhythm_measures title_text easiest_note 0 custom_rhythm [] of
           Inl e \<Rightarrow> Inl e
         | Inr measures_stream \<Rightarrow> Inr (part @ map MeasureEl measures_stream)))"

section \<open>Documents\<close>

text \<open>
  \<open>generate_scales_arpeggios_pdf\<close> and \<open>generate_custom_rhythm_pdf\<close> build a score, a
  list of parts, and hand it to the external renderer. The model ends with the score:
  creating the output folder and writing the file are outside the program.
\<close>

fun scales_arpeggios_loop ::
  "('i, 'k) music21 \<Rightarrow> string list \<Rightarrow> int \<Rightarrow> string \<Rightarrow> ('i, 'k) part_element list list
     \<Rightarrow> error + ('i, 'k) part_element list list" where
  "scales_arpeggios_loop lib [] num_octaves instrument_name score = Inr score"
| "scales_arpeggios_loop lib (key_sig # keys) num_octaves instrument_name score =
     (case create_part_for_single_key_scales_arpeggios lib key_sig num_octaves instrument_name of
        Inl e \<Rightarrow> Inl e
      | Inr part_for_key \<Rightarrow>
          scales_arpeggios_loop lib keys num_octaves instrument_name (score @ [part_for_key]))"

definition generate_scales_arpeggios_pdf ::
  "('i, 'k) music21 \<Rightarrow> string list \<Rightarrow> int \<Rightarrow> string \<Rightarrow> error + ('i, 'k) part_element list list" where
  "generate_scales_arpeggios_pdf lib keys num_octaves instrument_name =
     scales_arpeggios_loop lib keys num_octaves instrument_name []"

definition generate_custom_rhythm_pdf ::
  "('i, 'k) music21 \<Rightarrow> rat list list \<Rightarrow> string \<Rightarrow> string \<Rightarrow> error + ('i, 'k) part_element list list" where
  "generate_custom_rhythm_pdf lib custom_rhythm_example title instrument_name =
     (case create_custom_rhythm_part lib title custom_rhythm_example instrument_name of
        Inl e \<Rightarrow> Inl e
      | Inr custom_rhythm_part \<Rightarrow> Inr ([] @ [custom_rhythm_part]))"

section \<open>Closed forms and reference definitions\<close>

text \<open>
  What \<open>fix_enharmonic_spelling\<close> computes on a pitch, in closed form (lemma
  \<open>fix_enharmonic_spelling_eq\<close> below): the two names of \<open>ENHARM_MAP\<close> that a pitch
  can have are rewritten, any other pitch keeps its step and octave and has its
  accidental, if there is one, set to be displayed.
\<close>

definition force_display :: "accidental \<Rightarrow> accidental" where
  "force_display a = a\<lparr>displayStatus := Some True, displayType := ''normal''\<rparr>"

definition respelled :: "pitch \<Rightarrow> pitch" where
  "respelled p =
     (if step p = StepE \<and> alter_of p = 1 then p\<lparr>step := StepF, accidental := None\<rparr>
      else if step p = StepB \<and> alter_of p = 1
      then p\<lparr>step := StepC, accidental := None, octave := octave p + 1\<rparr>
      else p\<lparr>accidental := map_option force_display (accidental p)\<rparr>)"

definition spelled_note :: "string \<Rightarrow> pitch \<Rightarrow> note_event" where
  "spelled_note d p = \<lparr>pitch = Some (respelled p), duration = Duration_type d\<rparr>"

text \<open>
  The Measure Packer as section 4.5 of the spec words it, for scales: the notes before
  the final one in groups of the capacity, the first note of a group a quarter and the
  others eighths; the final note alone in a measure of its own as a whole note; the
  title on the first measure.
\<close>

function chunks :: "nat \<Rightarrow> 'a list \<Rightarrow> 'a list list" where
  "chunks n xs = (if n = 0 \<or> xs = [] then [] else take n xs # chunks n (drop n xs))"
  by pat_completeness auto
termination
  by (relation "measure (\<lambda>(n, xs). length xs)") auto

definition scale_group :: "pitch list \<Rightarrow> 'k measure" where
  "scale_group g =
     \<lparr>annotations = [],
      mnotes = (case g of
                  [] \<Rightarrow> []
                | p # rest \<Rightarrow> spelled_note ''quarter'' p # map (spelled_note ''eighth'') rest)\<rparr>"

definition final_measure :: "pitch \<Rightarrow> 'k measure" where
  "final_measure p = \<lparr>annotations = [], mnotes = [spelled_note ''whole'' p]\<rparr>"

definition with_title :: "string \<Rightarrow> 'k measure list \<Rightarrow> 'k measure list" where
  "with_title title_text ms =
     (case ms of
        [] \<Rightarrow> []
      | m # rest \<Rightarrow> m\<lparr>annotations := TextExpression title_text ''above'' # annotations m\<rparr> # rest)"

definition packed_scale :: "string \<Rightarrow> pitch list \<Rightarrow> 'k measure list" where
  "packed_scale title_text all_pitches =
     (if all_pitches = [] then []
      else with_title title_text
             (map scale_group (chunks 7 (butlast all_pitches)) @ [final_measure (last all_pitches)]))"

text \<open>
  The Measure Packer for arpeggios: the notes before the final one in groups of 8, all
  of them eighths; the final note alone in a measure of its own as a whole note; the
  title on the first measure.
\<close>

definition arpeggio_group :: "pitch list \<Rightarrow> 'k measure" where
  "arpeggio_group g = \<lparr>annotations = [], mnotes = map (spelled_note ''eighth'') g\<rparr>"

definition packed_arpeggio :: "string \<Rightarrow> pitch list \<Rightarrow> 'k measure list" where
  "packed_arpeggio title_text all_pitches =
     (if all_pitches = [] then []
      else with_title title_text
             (map arpeggio_group (chunks 8 (butlast all_pitches))
                @ [final_measure (last all_pitches)]))"

text \<open>A measure with further eighth notes appended: the state of an open measure.\<close>

definition fill :: "'k measure \<Rightarrow> pitch list \<Rightarrow> 'k measure" where
  "fill m g = m\<lparr>mnotes := mnotes m @ map (spelled_note ''eighth'') g\<rparr>"

text \<open>
  The scale indices one octave of the arpeggio reads: root, third and fifth, and for the
  last octave the upper octave tone as well.
\<close>

definition required_indices :: "int \<Rightarrow> int \<Rightarrow> int list" where
  "required_indices num_octaves oct =
     [7 * oct, 7 * oct + 2, 7 * oct + 4] @ (if oct < num_octaves - 1 then [] else [7 * oct + 7])"

text \<open>
  What one octave adds to \<open>arpeggio_up\<close>: all its tones when every index it reads is
  inside the scale pitches, nothing otherwise.
\<close>

definition octave_tones :: "pitch list \<Rightarrow> int \<Rightarrow> int \<Rightarrow> pitch list" where
  "octave_tones scale_pitches num_octaves oct =
     (if list_all (\<lambda>i. i < int (length scale_pitches)) (required_indices num_octaves oct)
      then map (\<lambda>i. scale_pitches ! nat i) (required_indices num_octaves oct)
      else [])"




text \<open>
  An instance of the library parameters, for the concrete examples: every instrument
  name is accepted and stands for its instrument object, a key object is the pair of its
  two arguments, and a major scale is built on the tonic that the key name denotes.
\<close>

definition example_library :: "(string, string \<times> string) music21" where
  "example_library =
     \<lparr>instrument_fromString = (\<lambda>instrument_name. Inr instrument_name),
      key_Key = (\<lambda>tonic_name mode. Inr (tonic_name, mode)),
      scale_MajorScale = (\<lambda>tonic_name.
        case set_name tonic_name (natural_pitch StepC 4) of
          Inl e \<Rightarrow> Inl e
        | Inr p \<Rightarrow> Inr (MajorScale p))\<rparr>"

text \<open>
  Pitch objects in a store, addressed by their position; \<open>respell_at\<close> is the effect
  of \<open>fix_enharmonic_spelling\<close> on the object at one address.
\<close>

definition respell_at :: "nat \<Rightarrow> pitch list \<Rightarrow> pitch list" where
  "respell_at a store = store[a := respelled (store ! a)]"

section \<open>The Pitch Speller: results\<close>

lemma replicate_eq_single: "replicate k c = [d] \<longleftrightarrow> k = Suc 0 \<and> c = d"
  by (cases k; cases "k - 1") auto

lemma modifier_sharp: "modifier a = ''#'' \<longleftrightarrow> a = 1"
  by (auto simp: modifier_def replicate_eq_single)

lemma modifier_not_b: "modifier a \<noteq> ''b''"
  by (auto simp: modifier_def replicate_eq_single)

lemma name_two:
  "name p = [c, d] \<longleftrightarrow>
     step_letter (step p) = c \<and> (\<exists>a. accidental p = Some a \<and> modifier (alter a) = [d])"
  by (auto simp: name_def split: option.splits)

lemma alter_of_one: "alter_of p = 1 \<longleftrightarrow> (\<exists>a. accidental p = Some a \<and> alter a = 1)"
  by (auto simp: alter_of_def split: option.splits)

text \<open>
  Only two of the four keys of \<open>ENHARM_MAP\<close> are names a pitch can have: no name ends
  in \<open>b\<close>.
\<close>

lemma ENHARM_MAP_name:
  "ENHARM_MAP (name p) =
     (if step p = StepE \<and> alter_of p = 1 then Some (''F'', 0)
      else if step p = StepB \<and> alter_of p = 1 then Some (''C'', 1)
      else None)"
  by (cases "step p")
     (auto simp: ENHARM_MAP_def name_two modifier_sharp modifier_not_b alter_of_one)

lemma set_name_F: "set_name ''F'' p = Inr (p\<lparr>step := StepF, accidental := None\<rparr>)"
  by (simp add: set_name_def step_of_letter_def)

lemma set_name_C: "set_name ''C'' p = Inr (p\<lparr>step := StepC, accidental := None\<rparr>)"
  by (simp add: set_name_def step_of_letter_def)

lemma fix_enharmonic_spelling_eq:
  "fix_enharmonic_spelling n =
     Inr (case pitch n of None \<Rightarrow> n | Some p \<Rightarrow> n\<lparr>pitch := Some (respelled p)\<rparr>)"
  by (auto simp: fix_enharmonic_spelling_def ENHARM_MAP_name set_name_F set_name_C
      respelled_def force_display_def Let_def split: option.splits)

lemma respelled_idem: "respelled (respelled p) = respelled p"
  by (cases "accidental p") (auto simp: respelled_def alter_of_def force_display_def)

lemma fix_Note:
  "fix_enharmonic_spelling ((Note p)\<lparr>duration := Duration_type d\<rparr>) = Inr (spelled_note d p)"
  by (simp add: fix_enharmonic_spelling_eq Note_def spelled_note_def)

lemma G_flat_major_fourth_degree:
  "getPitches (MajorScale \<lparr>step = StepG, accidental = Some (Accidental (- 1)), octave = 4\<rparr>)
     (pitch_at \<lparr>step = StepG, accidental = Some (Accidental (- 1)), octave = 4\<rparr> 4)
     (pitch_at \<lparr>step = StepG, accidental = Some (Accidental (- 1)), octave = 4\<rparr> 5) ! 3
   = \<lparr>step = StepC, accidental = Some (Accidental (- 1)), octave = 5\<rparr>"
  by code_simp

text \<open>
  Claim C5, at the input where the program departs from it. The claim has C flat
  rewritten to B an octave lower and F flat to E. C flat 5 is a pitch the speller
  receives: it is the fourth degree of G flat major from octave 4. The name of C flat is
  \<open>C-\<close>, which is not a key of \<open>ENHARM_MAP\<close> (the key meant for it is \<open>Cb\<close>), so the
  speller keeps the step and the octave of C flat 5 and only sets its accidental to be
  displayed; the same holds for F flat 4.
\<close>

theorem speller_keeps_flat_spellings:
  "getPitches (MajorScale \<lparr>step = StepG, accidental = Some (Accidental (- 1)), octave = 4\<rparr>)
     (pitch_at \<lparr>step = StepG, accidental = Some (Accidental (- 1)), octave = 4\<rparr> 4)
     (pitch_at \<lparr>step = StepG, accidental = Some (Accidental (- 1)), octave = 4\<rparr> 5) ! 3
     = \<lparr>step = StepC, accidental = Some (Accidental (- 1)), octave = 5\<rparr>
   \<and> name \<lparr>step = StepC, accidental = Some (Accidental (- 1)), octave = 5\<rparr> = ''C-''
   \<and> ENHARM_MAP ''C-'' = None
   \<and> fix_enharmonic_spelling
        \<lparr>pitch = Some \<lparr>step = StepC, accidental = Some (Accidental (- 1)), octave = 5\<rparr>,
         duration = d\<rparr>
      = Inr \<lparr>pitch = Some \<lparr>step = StepC,
                             accidental = Some (force_display (Accidental (- 1))),
                             octave = 5\<rparr>,
             duration = d\<rparr>
   \<and> fix_enharmonic_spelling
        \<lparr>pitch = Some \<lparr>step = StepF, accidental = Some (Accidental (- 1)), octave = 4\<rparr>,
         duration = d\<rparr>
      = Inr \<lparr>pitch = Some \<lparr>step = StepF,
                             accidental = Some (force_display (Accidental (- 1))),
                             octave = 4\<rparr>,
             duration = d\<rparr>"
  by (rule conjI[OF G_flat_major_fourth_degree])
     (simp add: fix_enharmonic_spelling_eq respelled_def alter_of_def Accidental_def
       name_def modifier_def ENHARM_MAP_def)

text \<open>
  Claim C6: the Pitch Speller is idempotent. On every note it returns a note, and
  respelling that note again returns it unchanged: pitch name, octave and accidental
  display state are those of the first application. Respelling E sharp 4 yields F 4 and
  respelling B sharp 3 yields C 4.
\<close>

theorem speller_idempotent:
  "(\<exists>n1. fix_enharmonic_spelling n = Inr n1 \<and> fix_enharmonic_spelling n1 = Inr n1)
   \<and> fix_enharmonic_spelling
        \<lparr>pitch = Some \<lparr>step = StepE, accidental = Some (Accidental 1), octave = 4\<rparr>,
         duration = d\<rparr>
      = Inr \<lparr>pitch = Some (natural_pitch StepF 4), duration = d\<rparr>
   \<and> fix_enharmonic_spelling
        \<lparr>pitch = Some \<lparr>step = StepB, accidental = Some (Accidental 1), octave = 3\<rparr>,
         duration = d\<rparr>
      = Inr \<lparr>pitch = Some (natural_pitch StepC 4), duration = d\<rparr>"
  by (cases "pitch n")
     (simp_all add: fix_enharmonic_spelling_eq respelled_idem,
      simp_all add: respelled_def alter_of_def Accidental_def natural_pitch_def)

section \<open>The Range/Clef Resolver: results\<close>

text \<open>
  Claim C10: the result of \<open>determine_clef_and_octave\<close> does not depend on the part
  designator; for the piano it is the whole pair of profiles, right hand and left hand,
  whatever the designator, so the choice of the hand is left to the caller.
\<close>

theorem determine_clef_and_octave_ignores_part:
  "determine_clef_and_octave instrument_name p1 = determine_clef_and_octave instrument_name p2
   \<and> determine_clef_and_octave ''Piano'' p1 =
       ClefDict [(''right'', (''TrebleClef'', 4)), (''left'', (''BassClef'', 2))]"
  by (simp add: determine_clef_and_octave_def)

section \<open>The Measure Packer for scales: results\<close>

declare chunks.simps [simp del]

lemma chunks_Nil [simp]: "chunks n [] = []"
  by (simp add: chunks.simps)

lemma chunks_Cons:
  "0 < n \<Longrightarrow> chunks n (x # xs) = (x # take (n - 1) xs) # chunks n (drop (n - 1) xs)"
  by (cases n) (simp_all add: chunks.simps[of _ "x # xs"])

lemma fill_Nil [simp]: "fill m [] = m"
  by (simp add: fill_def)

lemma fill_Cons: "fill m (p # g) = fill (append_note m (spelled_note ''eighth'' p)) g"
  by (simp add: fill_def append_note_def)

lemma scale_group_Cons:
  "scale_group (p # g) = fill (append_note Measure (spelled_note ''quarter'' p)) g"
  by (simp add: scale_group_def fill_def append_note_def Measure_def)

text \<open>
  The loop from a state in which a measure is open: \<open>c\<close> notes are in
  \<open>current_measure\<close>, and the counter agrees with \<open>c\<close> modulo the capacity. The open
  measure takes the next \<open>7 - c\<close> pitches, the rest goes into new measures group by
  group, and the final pitch gets its own measure.
\<close>

lemma scale_loop_running:
  fixes cur :: "'k measure"
  assumes "mnotes cur \<noteq> []" "0 < c" "c \<le> 7" "cnt mod 7 = int c mod 7" "0 < i"
    and "len = i + int (length body) + 1"
  shows "scale_loop title_text 7 len i (body @ [final]) ms cur cnt =
           Inr (ms @ fill cur (take (7 - c) body)
                  # map scale_group (chunks 7 (drop (7 - c) body)) @ [final_measure final])"
  using assms
proof (induction body arbitrary: ms cur cnt c i)
  case Nil
  then show ?case
    by (simp add: fix_Note Measure_def append_note_def final_measure_def)
next
  case (Cons p body)
  have ne: "i \<noteq> len - 1" using Cons.prems by simp
  show ?case
  proof (cases "c = 7")
    case True
    then have z: "cnt mod 7 = 0" using Cons.prems by simp
    let ?m = "append_note Measure (spelled_note ''quarter'' p) :: 'k measure"
    have one: "scale_loop title_text 7 len i ((p # body) @ [final]) ms cur cnt =
          scale_loop title_text 7 len (i + 1) (body @ [final]) (ms @ [cur]) ?m (cnt + 1)"
      using ne z Cons.prems by (simp add: fix_Note)
    have "(cnt + 1) mod 7 = (0 + 1) mod 7"
      using z by (intro mod_add_cong) simp_all
    then have step: "(cnt + 1) mod 7 = int 1 mod 7"
      by simp
    have "scale_loop title_text 7 len (i + 1) (body @ [final]) (ms @ [cur]) ?m (cnt + 1) =
           Inr ((ms @ [cur]) @ fill ?m (take (7 - 1) body)
                  # map scale_group (chunks 7 (drop (7 - 1) body)) @ [final_measure final])"
      using Cons.prems step
      by (intro Cons.IH) (simp_all add: append_note_def)
    with one True show ?thesis
      by (simp add: chunks_Cons scale_group_Cons)
  next
    case False
    then have c6: "c < 7" using Cons.prems by simp
    then have nz: "cnt mod 7 \<noteq> 0" using Cons.prems by simp
    let ?m = "append_note cur (spelled_note ''eighth'' p)"
    have one: "scale_loop title_text 7 len i ((p # body) @ [final]) ms cur cnt =
          scale_loop title_text 7 len (i + 1) (body @ [final]) ms ?m (cnt + 1)"
      using ne nz by (simp add: fix_Note)
    have "(cnt + 1) mod 7 = (int c + 1) mod 7"
      using Cons.prems(4) by (rule mod_add_cong) simp
    then have step: "(cnt + 1) mod 7 = int (c + 1) mod 7"
      by (simp only: of_nat_add of_nat_1)
    have "scale_loop title_text 7 len (i + 1) (body @ [final]) ms ?m (cnt + 1) =
           Inr (ms @ fill ?m (take (7 - (c + 1)) body)
                  # map scale_group (chunks 7 (drop (7 - (c + 1)) body)) @ [final_measure final])"
      using Cons.prems c6 step
      by (intro Cons.IH) (simp_all add: append_note_def)
    with one c6 show ?thesis
      by (simp add: take_Cons' drop_Cons' fill_Cons)
  qed
qed

lemma pack_scale_eq:
  "pack_scale title_text all_pitches = Inr (packed_scale title_text all_pitches)"
proof (cases all_pitches)
  case Nil
  then show ?thesis by (simp add: pack_scale_def packed_scale_def)
next
  case (Cons p rest)
  show ?thesis
  proof (cases rest rule: rev_cases)
    case Nil
    with Cons show ?thesis
      by (simp add: pack_scale_def packed_scale_def fix_Note Measure_def insert0_def
          append_note_def final_measure_def with_title_def)
  next
    case (snoc body final)
    let ?m = "append_note (insert0 (TextExpression title_text ''above'') Measure)
                (spelled_note ''quarter'' p) :: 'a measure"
    have "pack_scale title_text all_pitches =
          scale_loop title_text 7 (int (length all_pitches)) 1 (body @ [final]) [] ?m 1"
      using Cons snoc by (simp add: pack_scale_def fix_Note Measure_def)
    also have "\<dots> = Inr ([] @ fill ?m (take (7 - 1) body)
                  # map scale_group (chunks 7 (drop (7 - 1) body)) @ [final_measure final])"
      using Cons snoc by (intro scale_loop_running) (simp_all add: append_note_def)
    finally show ?thesis using Cons snoc
      by (simp add: packed_scale_def butlast_append chunks_Cons with_title_def scale_group_def
          fill_def append_note_def insert0_def Measure_def)
  qed
qed

lemma concat_chunks: "0 < n \<Longrightarrow> concat (chunks n xs) = xs"
proof (induction n xs rule: chunks.induct)
  case (1 n xs)
  then show ?case by (cases "xs = []") (simp_all add: chunks.simps[of n xs])
qed

lemma chunks_bounds: "0 < n \<Longrightarrow> g \<in> set (chunks n xs) \<Longrightarrow> g \<noteq> [] \<and> length g \<le> n"
proof (induction n xs rule: chunks.induct)
  case (1 n xs)
  then show ?case by (cases "xs = []") (auto simp: chunks.simps[of n xs])
qed

lemma mnotes_scale_group: "length (mnotes (scale_group g)) = length g"
  by (cases g) (simp_all add: scale_group_def)

lemma chunks_14:
  assumes "length xs = 14"
  shows "map length (chunks 7 xs) = [7, 7]"
proof -
  have a: "xs \<noteq> []" using assms by auto
  have b: "drop 7 xs \<noteq> []" using assms by auto
  have c: "drop 7 (drop 7 xs) = []" using assms by auto
  show ?thesis
    using assms a b c
    by (simp add: chunks.simps[of 7 xs] chunks.simps[of 7 "drop 7 xs"])
qed

lemma with_title_mnotes: "map mnotes (with_title t ms) = map mnotes ms"
  by (cases ms) (simp_all add: with_title_def)

lemma with_title_hd:
  "ms \<noteq> [] \<Longrightarrow> annotations (hd (with_title t ms)) = TextExpression t ''above'' # annotations (hd ms)"
  by (cases ms) (simp_all add: with_title_def)

lemma with_title_tl: "tl (with_title t ms) = tl ms"
  by (cases ms) (simp_all add: with_title_def)

lemma with_title_last: "mnotes (last (with_title t ms)) = mnotes (last ms)"
proof (cases "ms = []")
  case True
  then show ?thesis by (simp add: with_title_def)
next
  case False
  then have ne: "with_title t ms \<noteq> []"
    by (cases ms) (simp_all add: with_title_def)
  have "mnotes (last (with_title t ms)) = last (map mnotes (with_title t ms))"
    using ne by (simp add: last_map)
  also have "\<dots> = last (map mnotes ms)"
    by (simp only: with_title_mnotes)
  also have "\<dots> = mnotes (last ms)"
    using False by (simp add: last_map)
  finally show ?thesis .
qed

text \<open>
  Claim C2: a non-empty pitch sequence packed as a scale (capacity 7). The notes before
  the final one are the groups \<open>chunks 7 (butlast all_pitches)\<close>, in order, each group
  non-empty and of at most 7 pitches; a group becomes a measure whose first note is a
  quarter and whose other notes are eighths (\<open>scale_group\<close>); the final pitch is alone
  in a last measure as a whole note (\<open>final_measure\<close>); the title is on the first
  emitted measure and on no other, which for a single pitch is the whole-note measure; no
  measure is empty; and 15 pitches give three measures of 7, 7 and 1 notes.
\<close>

theorem measure_packer_scale:
  fixes title_text :: string and all_pitches :: "pitch list"
  assumes "all_pitches \<noteq> []"
  shows "\<exists>ms :: 'k measure list.
           pack_scale title_text all_pitches = Inr ms
         \<and> ms = with_title title_text
                  (map scale_group (chunks 7 (butlast all_pitches))
                     @ [final_measure (last all_pitches)])
         \<and> concat (chunks 7 (butlast all_pitches)) = butlast all_pitches
         \<and> (\<forall>g \<in> set (chunks 7 (butlast all_pitches)). g \<noteq> [] \<and> length g \<le> 7)
         \<and> (\<forall>m \<in> set ms. mnotes m \<noteq> [])
         \<and> mnotes (last ms) = [spelled_note ''whole'' (last all_pitches)]
         \<and> annotations (hd ms) = [TextExpression title_text ''above'']
         \<and> (\<forall>m \<in> set (tl ms). annotations m = [])
         \<and> (length all_pitches = 1 \<longrightarrow>
               ms = [\<lparr>annotations = [TextExpression title_text ''above''],
                      mnotes = [spelled_note ''whole'' (last all_pitches)]\<rparr>])
         \<and> (length all_pitches = 15 \<longrightarrow> map (length \<circ> mnotes) ms = [7, 7, 1])"
proof -
  let ?gs = "chunks 7 (butlast all_pitches)"
  let ?body = "map scale_group ?gs @ [final_measure (last all_pitches)] :: 'k measure list"
  let ?ms = "with_title title_text ?body"
  have eq: "pack_scale title_text all_pitches = Inr ?ms"
    using assms by (simp add: pack_scale_eq packed_scale_def)
  have gs: "\<forall>g \<in> set ?gs. g \<noteq> [] \<and> length g \<le> 7"
    using chunks_bounds[of 7] by auto
  have "\<forall>ns \<in> set (map mnotes ?body). ns \<noteq> []"
    using gs by (auto simp: final_measure_def scale_group_def split: list.splits)
  then have "\<forall>ns \<in> set (map mnotes ?ms). ns \<noteq> []"
    by (simp only: with_title_mnotes)
  then have nonempty: "\<forall>m \<in> set ?ms. mnotes m \<noteq> []"
    by simp
  have body_ann: "\<forall>m \<in> set ?body. annotations m = []"
    by (auto simp: final_measure_def scale_group_def)
  have lastm: "mnotes (last ?ms) = [spelled_note ''whole'' (last all_pitches)]"
    by (simp add: with_title_last final_measure_def)
  have "hd ?body \<in> set ?body"
    by (rule hd_in_set) simp
  then have "annotations (hd ?body) = []"
    using body_ann by blast
  then have hdm: "annotations (hd ?ms) = [TextExpression title_text ''above'']"
    by (simp add: with_title_hd)
  have "\<And>m. m \<in> set (tl ?body) \<Longrightarrow> m \<in> set ?body"
    by (rule list.set_sel(2)) simp
  then have tlm: "\<forall>m \<in> set (tl ?ms). annotations m = []"
    using body_ann unfolding with_title_tl by blast
  have one: "length all_pitches = 1 \<longrightarrow>
               ?ms = [\<lparr>annotations = [TextExpression title_text ''above''],
                      mnotes = [spelled_note ''whole'' (last all_pitches)]\<rparr>]"
  proof
    assume "length all_pitches = 1"
    then have "butlast all_pitches = []" by (cases all_pitches) auto
    then show "?ms = [\<lparr>annotations = [TextExpression title_text ''above''],
                      mnotes = [spelled_note ''whole'' (last all_pitches)]\<rparr>]"
      by (simp add: with_title_def final_measure_def)
  qed
  have fifteen: "length all_pitches = 15 \<longrightarrow> map (length \<circ> mnotes) ?ms = [7, 7, 1]"
  proof
    assume "length all_pitches = 15"
    then have "length (butlast all_pitches) = 14" by simp
    then have "map length ?gs = [7, 7]" by (rule chunks_14)
    then have "map length (map mnotes ?body) = [7, 7, 1]"
      by (simp add: comp_def mnotes_scale_group final_measure_def)
    then have "map length (map mnotes ?ms) = [7, 7, 1]"
      by (simp only: with_title_mnotes)
    then show "map (length \<circ> mnotes) ?ms = [7, 7, 1]"
      by simp
  qed
  show ?thesis
    using eq concat_chunks[of 7 "butlast all_pitches"] gs nonempty lastm hdm tlm one fifteen
    by (intro exI[of _ ?ms]) simp
qed

lemma C_major_4_1:
  "scale_all_pitches (MajorScale (natural_pitch StepC 4)) 4 1 =
     Inr [natural_pitch StepC 4, natural_pitch StepD 4, natural_pitch StepE 4, natural_pitch StepF 4,
      natural_pitch StepG 4, natural_pitch StepA 4, natural_pitch StepB 4, natural_pitch StepC 5,
      natural_pitch StepB 4, natural_pitch StepA 4, natural_pitch StepG 4, natural_pitch StepF 4,
      natural_pitch StepE 4, natural_pitch StepD 4, natural_pitch StepC 4]"
  by code_simp

theorem measure_packer_scale_witness:
  "projr (scale_all_pitches (MajorScale (natural_pitch StepC 4)) 4 1) \<noteq> []
   \<and> length (projr (scale_all_pitches (MajorScale (natural_pitch StepC 4)) 4 1)) = 15
   \<and> (\<exists>ms :: unit measure list.
         pack_scale ''C Major Scale'' (projr (scale_all_pitches (MajorScale (natural_pitch StepC 4)) 4 1)) = Inr ms
       \<and> map (length \<circ> mnotes) ms = [7, 7, 1]
       \<and> annotations (hd ms) = [TextExpression ''C Major Scale'' ''above''])"
proof -
  define ps where "ps = projr (scale_all_pitches (MajorScale (natural_pitch StepC 4)) 4 1)"
  define t where "t = ''C Major Scale''"
  have len: "length ps = 15" unfolding ps_def by (simp add: C_major_4_1)
  then have ne: "ps \<noteq> []" by auto
  from measure_packer_scale[OF ne, of t, where 'k = unit]
  obtain ms :: "unit measure list" where
    a: "pack_scale t ps = Inr ms" and
    b: "annotations (hd ms) = [TextExpression t ''above'']" and
    c: "length ps = 15 \<longrightarrow> map (length \<circ> mnotes) ms = [7, 7, 1]"
    by (elim exE conjE) (rule that; assumption)
  from c len have "map (length \<circ> mnotes) ms = [7, 7, 1]" by (rule mp)
  with a b have "\<exists>ms :: unit measure list. pack_scale t ps = Inr ms
       \<and> map (length \<circ> mnotes) ms = [7, 7, 1]
       \<and> annotations (hd ms) = [TextExpression t ''above'']"
    by (intro exI[of _ ms] conjI)
  with len ne show ?thesis unfolding ps_def t_def by (intro conjI)
qed

section \<open>The Scale Sequencer: results\<close>

lemma step_index_range: "0 \<le> step_index s \<and> step_index s < 7"
  by (cases s) simp_all

lemma step_of_index_step_index: "step_of_index (step_index s) = s"
  by (cases s) (simp_all add: step_of_index_def)

lemma mod7_cases:
  fixes i :: int
  shows "i mod 7 = 0 \<or> i mod 7 = 1 \<or> i mod 7 = 2 \<or> i mod 7 = 3
           \<or> i mod 7 = 4 \<or> i mod 7 = 5 \<or> i mod 7 = 6"
proof -
  have "0 \<le> i mod 7" "i mod 7 < 7" by simp_all
  then show ?thesis by arith
qed

lemma step_index_step_of_index: "step_index (step_of_index i) = i mod 7"
  using mod7_cases[of i] by (elim disjE) (simp_all add: step_of_index_def)

lemma major_offset_range: "0 \<le> major_offset k \<and> major_offset k \<le> 11"
  using mod7_cases[of k] by (elim disjE) (simp_all add: major_offset_def)

lemma step_degree: "step (degree_pitch t oct k) = step_of_index (step_index (step t) + k)"
  by (simp add: degree_pitch_def Let_def)

lemma octave_degree: "octave (degree_pitch t oct k) = oct + (step_index (step t) + k) div 7"
  by (simp add: degree_pitch_def Let_def)

lemma degree_pitch_inj:
  assumes "degree_pitch t oct j = degree_pitch t oct k"
  shows "j = k"
proof -
  let ?d = "\<lambda>k. step_index (step t) + k"
  from assms have "step_index (step (degree_pitch t oct j)) = step_index (step (degree_pitch t oct k))"
    and "octave (degree_pitch t oct j) = octave (degree_pitch t oct k)" by simp_all
  then have "?d j mod 7 = ?d k mod 7" "?d j div 7 = ?d k div 7"
    by (simp_all add: step_degree octave_degree step_index_step_of_index)
  then have "?d j = ?d k"
    by (metis mult_div_mod_eq)
  then show ?thesis by simp
qed

lemma alter_of_pitch_at: "alter_of (pitch_at t oct) = alter_of t"
  by (simp add: pitch_at_def alter_of_def Accidental_def)

lemma degree_pitch_0: "degree_pitch t oct 0 = pitch_at t oct"
  using step_index_range[of "step t"]
  by (simp add: degree_pitch_def Let_def step_of_index_step_index ps_def major_offset_def
      pitch_at_def alter_of_def Accidental_def)

lemma degree_pitch_top: "degree_pitch t oct (7 * n) = pitch_at t (oct + n)"
proof -
  have d: "(step_index (step t) + 7 * n) div 7 = n"
    using step_index_range[of "step t"] by simp
  have m: "(step_index (step t) + 7 * n) mod 7 = step_index (step t)"
    using step_index_range[of "step t"] by simp
  have s: "step_of_index (step_index (step t) + 7 * n) = step t"
    using step_of_index_step_index[of "step t"] m by (simp add: step_of_index_def)
  show ?thesis
    by (simp add: degree_pitch_def Let_def d s ps_def major_offset_def alter_of_pitch_at)
       (simp add: pitch_at_def)
qed

lemma distinct_degrees: "distinct (map (\<lambda>k. degree_pitch t oct (int k)) [0 ..< m])"
  by (auto simp: distinct_map inj_on_def dest: degree_pitch_inj)

lemma count_list_distinct_last:
  assumes "distinct xs" "xs \<noteq> []"
  shows "count_list (xs @ rev (butlast xs)) (last xs) = 1"
proof -
  obtain ys y where xs: "xs = ys @ [y]" using assms(2) by (cases xs rule: rev_cases) auto
  then have "y \<notin> set ys" using assms(1) by auto
  then have "count_list ys y = 0" by (simp add: count_list_0_iff)
  then show ?thesis by (simp add: xs)
qed

lemma last_up_down: "2 \<le> length xs \<Longrightarrow> last (xs @ rev (butlast xs)) = hd xs"
  by (cases xs) (auto simp: last_rev)

lemma hd_up:
  assumes "0 < n"
  shows "hd (map (\<lambda>k. degree_pitch t oct (int k)) [0 ..< nat (7 * n + 1)]) = pitch_at t oct"
proof -
  have "[0 ..< nat (7 * n + 1)] = 0 # [1 ..< nat (7 * n + 1)]"
    using assms by (simp add: upt_conv_Cons)
  then show ?thesis by (simp add: degree_pitch_0)
qed

lemma last_up:
  assumes "0 < n"
  shows "last (map (\<lambda>k. degree_pitch t oct (int k)) [0 ..< nat (7 * n + 1)]) = pitch_at t (oct + n)"
proof -
  have "nat (7 * n + 1) = Suc (nat (7 * n))" using assms by simp
  then show ?thesis using assms by (simp add: degree_pitch_top)
qed


lemma ps_degree_pitch:
  "ps (degree_pitch t oct k) = ps (pitch_at t oct) + 12 * (k div 7) + major_offset k"
  by (simp add: degree_pitch_def Let_def ps_def[of "\<lparr>step = _, accidental = _, octave = _\<rparr>"]
      alter_of_def Accidental_def)

lemma semitones_step:
  "12 * (k div 7) + major_offset k < 12 * ((k + 1) div 7) + major_offset (k + 1)"
proof -
  have d: "k = 7 * (k div 7) + k mod 7" by simp
  from mod7_cases[of k] show ?thesis
  proof (elim disjE)
    assume m: "k mod 7 = 6"
    then have "(k + 1) mod 7 = 0" "(k + 1) div 7 = k div 7 + 1" by presburger+
    with m show ?thesis by (simp add: major_offset_def)
  next
    assume m: "k mod 7 = 0"
    then have "(k + 1) mod 7 = 1" "(k + 1) div 7 = k div 7" by presburger+
    with m show ?thesis by (simp add: major_offset_def)
  next
    assume m: "k mod 7 = 1"
    then have "(k + 1) mod 7 = 2" "(k + 1) div 7 = k div 7" by presburger+
    with m show ?thesis by (simp add: major_offset_def)
  next
    assume m: "k mod 7 = 2"
    then have "(k + 1) mod 7 = 3" "(k + 1) div 7 = k div 7" by presburger+
    with m show ?thesis by (simp add: major_offset_def)
  next
    assume m: "k mod 7 = 3"
    then have "(k + 1) mod 7 = 4" "(k + 1) div 7 = k div 7" by presburger+
    with m show ?thesis by (simp add: major_offset_def)
  next
    assume m: "k mod 7 = 4"
    then have "(k + 1) mod 7 = 5" "(k + 1) div 7 = k div 7" by presburger+
    with m show ?thesis by (simp add: major_offset_def)
  next
    assume m: "k mod 7 = 5"
    then have "(k + 1) mod 7 = 6" "(k + 1) div 7 = k div 7" by presburger+
    with m show ?thesis by (simp add: major_offset_def)
  qed
qed

lemma ps_degree_mono: "j < k \<Longrightarrow> ps (degree_pitch t oct (int j)) < ps (degree_pitch t oct (int k))"
proof -
  let ?f = "\<lambda>n. 12 * (int n div 7) + major_offset (int n)"
  have "\<And>n. ?f n < ?f (Suc n)"
    using semitones_step[of "int _"] by (simp only: of_nat_Suc add.commute[of 1])
  then have "j < k \<Longrightarrow> ?f j < ?f k"
    by (rule lift_Suc_mono_less)
  then show "j < k \<Longrightarrow> ?thesis"
    by (simp add: ps_degree_pitch)
qed

lemma ascending_degrees:
  "sorted_wrt (\<lambda>p q. ps p < ps q) (map (\<lambda>k. degree_pitch t oct (int k)) [a ..< b])"
  by (simp add: sorted_wrt_map ps_degree_mono sorted_wrt_mono_rel[OF _ sorted_wrt_upt])

lemma semitones_mono:
  fixes j k :: int
  assumes "j < k"
  shows "12 * (j div 7) + major_offset j < 12 * (k div 7) + major_offset k"
  using assms
proof (induct k rule: int_gr_induct)
  case base
  show ?case by (rule semitones_step)
next
  case (step i)
  from step(2) semitones_step[of i] show ?case by (rule less_trans)
qed

lemma semitones_le_iff:
  fixes j k :: int
  shows "12 * (j div 7) + major_offset j \<le> 12 * (k div 7) + major_offset k \<longleftrightarrow> j \<le> k"
proof
  assume a: "12 * (j div 7) + major_offset j \<le> 12 * (k div 7) + major_offset k"
  show "j \<le> k"
  proof (rule ccontr)
    assume "\<not> j \<le> k"
    then have "k < j" by simp
    from semitones_mono[OF this] a show False by simp
  qed
next
  assume "j \<le> k"
  then have "j = k \<or> j < k" by auto
  then show "12 * (j div 7) + major_offset j \<le> 12 * (k div 7) + major_offset k"
    using semitones_mono[of j k] by auto
qed

lemma ps_pitch_at: "ps (pitch_at t oct) = ps (pitch_at t 0) + 12 * oct"
  by (simp add: ps_def alter_of_pitch_at) (simp add: pitch_at_def)

lemma major_offset_shift: "major_offset (k + 7 * n) = major_offset k"
  by (simp add: major_offset_def)

lemma degree_pitch_shift: "degree_pitch t oct k = degree_pitch t 0 (k + 7 * oct)"
proof -
  have a: "(step_index (step t) + (k + 7 * oct)) div 7 = oct + (step_index (step t) + k) div 7"
    by simp
  have b: "step_of_index (step_index (step t) + (k + 7 * oct)) = step_of_index (step_index (step t) + k)"
    by (simp add: step_of_index_def add.assoc[symmetric])
  have c: "(k + 7 * oct) div 7 = k div 7 + oct" by simp
  show ?thesis
    unfolding degree_pitch_def Let_def a b c major_offset_shift ps_pitch_at[of t oct]
    by (simp add: algebra_simps)
qed

lemma filter_upto_range:
  fixes a b klo khi :: int
  assumes "klo \<le> a" "b \<le> khi"
  shows "filter (\<lambda>k. a \<le> k \<and> k \<le> b) [klo .. khi] = [a .. b]"
proof (rule sorted_distinct_set_unique)
  show "sorted (filter (\<lambda>k. a \<le> k \<and> k \<le> b) [klo .. khi])" by (rule sorted_wrt_filter) simp
  show "distinct (filter (\<lambda>k. a \<le> k \<and> k \<le> b) [klo .. khi])" by simp
  show "sorted [a .. b]" by simp
  show "distinct [a .. b]" by simp
  show "set (filter (\<lambda>k. a \<le> k \<and> k \<le> b) [klo .. khi]) = set [a .. b]"
    using assms by auto
qed

lemma upto_as_upt: "[a .. b] = map (\<lambda>k. a + int k) [0 ..< nat (b - a + 1)]"
  by (rule nth_equalityI) simp_all

lemma major_offset_7: "major_offset (7 * n) = 0"
  by (simp add: major_offset_def)

lemma scale_pitches_between_tonic:
  assumes "0 \<le> n"
  shows "scale_pitches_between t (ps (pitch_at t oct)) (ps (pitch_at t (oct + n))) =
           map (degree_pitch t 0) [7 * oct .. 7 * (oct + n)]"
proof -
  let ?b = "ps (pitch_at t 0)"
  have lo: "(ps (pitch_at t oct) - ?b) div 12 = oct"
    by (simp add: ps_pitch_at[of t oct])
  have hi: "(ps (pitch_at t (oct + n)) - ?b) div 12 = oct + n"
    by (simp add: ps_pitch_at[of t "oct + n"])
  have p: "(ps (pitch_at t oct) \<le> ps (degree_pitch t 0 k) \<and> ps (degree_pitch t 0 k) \<le> ps (pitch_at t (oct + n)))
             \<longleftrightarrow> (7 * oct \<le> k \<and> k \<le> 7 * (oct + n))" for k
  proof -
    have a: "12 * (7 * oct div 7) + major_offset (7 * oct) = 12 * oct"
      by (simp add: major_offset_7)
    have b: "12 * (7 * (oct + n) div 7) + major_offset (7 * (oct + n)) = 12 * (oct + n)"
      by (simp only: major_offset_7 nonzero_mult_div_cancel_left)
    have "ps (pitch_at t oct) \<le> ps (degree_pitch t 0 k) \<longleftrightarrow> 7 * oct \<le> k"
      using semitones_le_iff[of "7 * oct" k] unfolding a
      by (simp add: ps_degree_pitch ps_pitch_at[of t oct])
    moreover have "ps (degree_pitch t 0 k) \<le> ps (pitch_at t (oct + n)) \<longleftrightarrow> k \<le> 7 * (oct + n)"
      using semitones_le_iff[of k "7 * (oct + n)"] unfolding b
      by (simp add: ps_degree_pitch ps_pitch_at[of t "oct + n"])
    ultimately show ?thesis by simp
  qed
  have "scale_pitches_between t (ps (pitch_at t oct)) (ps (pitch_at t (oct + n))) =
          map (degree_pitch t 0)
            (filter (\<lambda>k. 7 * oct \<le> k \<and> k \<le> 7 * (oct + n)) [7 * oct - 7 .. 7 * (oct + n) + 7])"
    unfolding scale_pitches_between_def lo hi filter_map comp_def p ..
  also have "filter (\<lambda>k. 7 * oct \<le> k \<and> k \<le> 7 * (oct + n)) [7 * oct - 7 .. 7 * (oct + n) + 7] =
          [7 * oct .. 7 * (oct + n)]"
    by (rule filter_upto_range) simp_all
  finally show ?thesis .
qed

lemma getPitches_MajorScale:
  assumes "0 \<le> n"
  shows "getPitches (MajorScale t) (pitch_at t oct) (pitch_at t (oct + n)) =
     map (\<lambda>k. degree_pitch t oct (int k)) [0 ..< nat (7 * n + 1)]"
proof -
  have le: "ps (pitch_at t oct) \<le> ps (pitch_at t (oct + n))"
    using assms by (simp add: ps_pitch_at[of t oct] ps_pitch_at[of t "oct + n"])
  have "getPitches (MajorScale t) (pitch_at t oct) (pitch_at t (oct + n)) =
          map (degree_pitch t 0) [7 * oct .. 7 * (oct + n)]"
    using le scale_pitches_between_tonic[OF assms, of t oct] by (simp add: MajorScale_def)
  also have "[7 * oct .. 7 * (oct + n)] = map (\<lambda>k. 7 * oct + int k) [0 ..< nat (7 * n + 1)]"
    by (simp add: upto_as_upt algebra_simps)
  also have "map (degree_pitch t 0) (map (\<lambda>k. 7 * oct + int k) [0 ..< nat (7 * n + 1)]) =
          map (\<lambda>k. degree_pitch t oct (int k)) [0 ..< nat (7 * n + 1)]"
    by (simp add: degree_pitch_shift[of t oct] add.commute)
  finally show ?thesis .
qed

lemma scale_pitches_between_set:
  "set (scale_pitches_between t lo hi) =
     {p. \<exists>k. p = degree_pitch t 0 k \<and> lo \<le> ps p \<and> ps p \<le> hi}"
proof -
  let ?b = "ps (pitch_at t 0)"
  have w: "7 * ((lo - ?b) div 12) - 7 \<le> k \<and> k \<le> 7 * ((hi - ?b) div 12) + 7"
    if "lo \<le> ps (degree_pitch t 0 k)" "ps (degree_pitch t 0 k) \<le> hi" for k
  proof -
    from that major_offset_range[of k]
    have x: "lo - ?b \<le> 12 * (k div 7) + 11" and y: "12 * (k div 7) \<le> hi - ?b"
      by (simp_all add: ps_degree_pitch)
    have "(lo - ?b) div 12 \<le> (12 * (k div 7) + 11) div 12"
      using x by (rule zdiv_mono1) simp
    then have q: "(lo - ?b) div 12 \<le> k div 7" by simp
    have "(12 * (k div 7)) div 12 \<le> (hi - ?b) div 12"
      using y by (rule zdiv_mono1) simp
    then have r: "k div 7 \<le> (hi - ?b) div 12" by simp
    have k: "k = 7 * (k div 7) + k mod 7" "0 \<le> k mod 7" "k mod 7 < 7" by simp_all
    from q r k show ?thesis by linarith
  qed
  show ?thesis
    unfolding scale_pitches_between_def using w by auto
qed

lemma named_pitch_nonneg: "0 \<le> oct \<Longrightarrow> named_pitch t oct = Inr (pitch_at t oct)"
  by (simp add: named_pitch_def)

lemma scale_all_pitches_MajorScale:
  assumes "0 \<le> oct" "0 \<le> n"
  shows "scale_all_pitches (MajorScale t) oct n =
           Inr (map (\<lambda>k. degree_pitch t oct (int k)) [0 ..< nat (7 * n + 1)]
                  @ rev (butlast (map (\<lambda>k. degree_pitch t oct (int k)) [0 ..< nat (7 * n + 1)])))"
proof -
  have t: "tonic (MajorScale t) = t" by (simp add: MajorScale_def)
  have lo: "named_pitch t oct = Inr (pitch_at t oct)"
    using assms(1) by (rule named_pitch_nonneg)
  have hi: "named_pitch t (oct + n) = Inr (pitch_at t (oct + n))"
    using assms by (intro named_pitch_nonneg) simp
  show ?thesis
    by (simp add: scale_all_pitches_def t lo hi Let_def getPitches_MajorScale[OF assms(2)])
qed

text \<open>
  Claim C1, for an \<open>octave_start\<close> that is not negative: for a major scale on any
  tonic and a positive \<open>num_octaves\<close>, the two strings passed to the library denote the
  tonic at \<open>octave_start\<close> and at \<open>octave_start + num_octaves\<close>, and the sequence is the
  ascent followed by the reverse of the ascent without its last pitch. The ascent is the
  scale's degrees 0 to \<open>7 * num_octaves\<close>, strictly rising in pitch, from the tonic at
  \<open>octave_start\<close> to the tonic at \<open>octave_start + num_octaves\<close>. The whole sequence has
  \<open>2 * (7 * num_octaves) + 1\<close> pitches, begins and ends with the tonic at
  \<open>octave_start\<close>, and holds the top pitch once. For C, octave 4, one octave it is
  C4 D4 E4 F4 G4 A4 B4 C5 B4 A4 G4 F4 E4 D4 C4.
\<close>

theorem scale_sequencer:
  assumes "0 \<le> octave_start" and "0 < num_octaves"
  shows "(let pitches_up = getPitches (MajorScale t) (pitch_at t octave_start)
                             (pitch_at t (octave_start + num_octaves));
              all_pitches = pitches_up @ rev (butlast pitches_up)
          in named_pitch t octave_start = Inr (pitch_at t octave_start)
           \<and> named_pitch t (octave_start + num_octaves) = Inr (pitch_at t (octave_start + num_octaves))
           \<and> scale_all_pitches (MajorScale t) octave_start num_octaves = Inr all_pitches
           \<and> pitches_up = map (\<lambda>k. degree_pitch t octave_start (int k))
                            [0 ..< nat (7 * num_octaves + 1)]
           \<and> sorted_wrt (\<lambda>p q. ps p < ps q) pitches_up
           \<and> hd pitches_up = pitch_at t octave_start
           \<and> last pitches_up = pitch_at t (octave_start + num_octaves)
           \<and> int (length all_pitches) = 2 * (7 * num_octaves) + 1
           \<and> hd all_pitches = pitch_at t octave_start
           \<and> last all_pitches = pitch_at t octave_start
           \<and> count_list all_pitches (pitch_at t (octave_start + num_octaves)) = 1)
       \<and> scale_all_pitches (MajorScale (natural_pitch StepC 4)) 4 1 =
           Inr [natural_pitch StepC 4, natural_pitch StepD 4, natural_pitch StepE 4,
            natural_pitch StepF 4, natural_pitch StepG 4, natural_pitch StepA 4,
            natural_pitch StepB 4, natural_pitch StepC 5, natural_pitch StepB 4,
            natural_pitch StepA 4, natural_pitch StepG 4, natural_pitch StepF 4,
            natural_pitch StepE 4, natural_pitch StepD 4, natural_pitch StepC 4]"
proof -
  let ?up = "map (\<lambda>k. degree_pitch t octave_start (int k)) [0 ..< nat (7 * num_octaves + 1)]"
  let ?ascent = "getPitches (MajorScale t) (pitch_at t octave_start)
              (pitch_at t (octave_start + num_octaves))"
  have n: "0 \<le> num_octaves" using assms(2) by simp
  have up: "?ascent = ?up"
    using n by (rule getPitches_MajorScale)
  have lo: "named_pitch t octave_start = Inr (pitch_at t octave_start)"
    using assms(1) by (rule named_pitch_nonneg)
  have hi: "named_pitch t (octave_start + num_octaves) = Inr (pitch_at t (octave_start + num_octaves))"
    using assms by (intro named_pitch_nonneg) simp
  have all: "scale_all_pitches (MajorScale t) octave_start num_octaves = Inr (?up @ rev (butlast ?up))"
    using assms(1) n by (rule scale_all_pitches_MajorScale)
  have asc: "sorted_wrt (\<lambda>p q. ps p < ps q) ?up"
    by (rule ascending_degrees)
  have ne: "?up \<noteq> []" using assms by simp
  have h: "hd ?up = pitch_at t octave_start" using assms(2) by (rule hd_up)
  have l: "last ?up = pitch_at t (octave_start + num_octaves)" using assms(2) by (rule last_up)
  have len: "int (length (?up @ rev (butlast ?up))) = 2 * (7 * num_octaves) + 1"
    using assms by simp
  have hd_all: "hd (?up @ rev (butlast ?up)) = pitch_at t octave_start"
    using ne h by simp
  have "2 \<le> length ?up" using assms by simp
  then have "last (?up @ rev (butlast ?up)) = hd ?up" by (rule last_up_down)
  then have last_all: "last (?up @ rev (butlast ?up)) = pitch_at t octave_start"
    using h by simp
  have cnt: "count_list (?up @ rev (butlast ?up)) (pitch_at t (octave_start + num_octaves)) = 1"
    using count_list_distinct_last[OF distinct_degrees ne] l by simp
  have main: "named_pitch t octave_start = Inr (pitch_at t octave_start)
      \<and> named_pitch t (octave_start + num_octaves) = Inr (pitch_at t (octave_start + num_octaves))
      \<and> scale_all_pitches (MajorScale t) octave_start num_octaves = Inr (?up @ rev (butlast ?up))
      \<and> ?up = ?up \<and> sorted_wrt (\<lambda>p q. ps p < ps q) ?up
      \<and> hd ?up = pitch_at t octave_start
      \<and> last ?up = pitch_at t (octave_start + num_octaves)
      \<and> int (length (?up @ rev (butlast ?up))) = 2 * (7 * num_octaves) + 1
      \<and> hd (?up @ rev (butlast ?up)) = pitch_at t octave_start
      \<and> last (?up @ rev (butlast ?up)) = pitch_at t octave_start
      \<and> count_list (?up @ rev (butlast ?up)) (pitch_at t (octave_start + num_octaves)) = 1"
    using lo hi asc h l all len hd_all last_all cnt by (intro conjI refl)
  show ?thesis
    unfolding Let_def up
    by (rule conjI) (rule main, rule C_major_4_1)
qed

theorem scale_sequencer_witness:
  "(0::int) \<le> 4 \<and> (0::int) < 1
   \<and> (\<exists>all_pitches.
         scale_all_pitches (MajorScale (natural_pitch StepC 4)) 4 1 = Inr all_pitches
       \<and> int (length all_pitches) = 15
       \<and> hd all_pitches = natural_pitch StepC 4
       \<and> last all_pitches = natural_pitch StepC 4
       \<and> count_list all_pitches (natural_pitch StepC 5) = 1)"
proof -
  have p: "pitch_at (natural_pitch StepC 4) oct = natural_pitch StepC oct" for oct
    by (simp add: pitch_at_def natural_pitch_def alter_of_def)
  have nonneg: "(0::int) \<le> 4" and pos: "(0::int) < 1" by simp_all
  define all_pitches where
    "all_pitches = getPitches (MajorScale (natural_pitch StepC 4)) (natural_pitch StepC 4)
                     (natural_pitch StepC (4 + 1))
                   @ rev (butlast (getPitches (MajorScale (natural_pitch StepC 4))
                       (natural_pitch StepC 4) (natural_pitch StepC (4 + 1))))"
  note w = scale_sequencer[OF nonneg pos, of "natural_pitch StepC 4", unfolded Let_def p,
      folded all_pitches_def]
  have s: "scale_all_pitches (MajorScale (natural_pitch StepC 4)) 4 1 = Inr all_pitches"
    using w by (elim conjE)
  have a: "int (length all_pitches) = 2 * (7 * 1) + 1"
    using w by (elim conjE)
  have b: "hd all_pitches = natural_pitch StepC 4"
    using w by (elim conjE)
  have c: "last all_pitches = natural_pitch StepC 4"
    using w by (elim conjE)
  have d: "count_list all_pitches (natural_pitch StepC (4 + 1)) = 1"
    using w by (elim conjE)
  from a have a': "int (length all_pitches) = 15" by simp
  from d have d': "count_list all_pitches (natural_pitch StepC 5) = 1" by simp
  from s a' b c d' nonneg pos show ?thesis by (intro conjI exI[of _ all_pitches])
qed

text \<open>
  Claim C1 fails as stated for a negative \<open>octave_start\<close>. With the tonic C, \<open>octave_start\<close> -1
  and one octave, the lower bound is the string \<open>C-1\<close>, which is C flat 1, and the upper
  bound is \<open>C0\<close>. The lower bound lies above the upper one, so the scale comes back from
  the top down: the sequence runs from B0 down to C0 and back up to B0, 13 pitches and
  not 15, and neither begins nor ends with a C.
\<close>

theorem scale_sequencer_counterexample:
  "named_pitch (natural_pitch StepC 4) (- 1) =
     Inr \<lparr>step = StepC, accidental = Some (Accidental (- 1)), octave = 1\<rparr>
   \<and> named_pitch (natural_pitch StepC 4) (- 1 + 1) = Inr (natural_pitch StepC 0)
   \<and> scale_all_pitches (MajorScale (natural_pitch StepC 4)) (- 1) 1 =
       Inr [natural_pitch StepB 0, natural_pitch StepA 0, natural_pitch StepG 0,
            natural_pitch StepF 0, natural_pitch StepE 0, natural_pitch StepD 0,
            natural_pitch StepC 0, natural_pitch StepD 0, natural_pitch StepE 0,
            natural_pitch StepF 0, natural_pitch StepG 0, natural_pitch StepA 0,
            natural_pitch StepB 0]"
proof (intro conjI)
  show "named_pitch (natural_pitch StepC 4) (- 1) =
     Inr \<lparr>step = StepC, accidental = Some (Accidental (- 1)), octave = 1\<rparr>"
    by code_simp
  show "named_pitch (natural_pitch StepC 4) (- 1 + 1) = Inr (natural_pitch StepC 0)"
    by code_simp
  show "scale_all_pitches (MajorScale (natural_pitch StepC 4)) (- 1) 1 =
       Inr [natural_pitch StepB 0, natural_pitch StepA 0, natural_pitch StepG 0,
            natural_pitch StepF 0, natural_pitch StepE 0, natural_pitch StepD 0,
            natural_pitch StepC 0, natural_pitch StepD 0, natural_pitch StepE 0,
            natural_pitch StepF 0, natural_pitch StepG 0, natural_pitch StepA 0,
            natural_pitch StepB 0]"
    by code_simp
qed

section \<open>The Arpeggio Sequencer: results\<close>

lemma py_index_nonneg:
  "0 \<le> i \<Longrightarrow> py_index xs i = (if i < int (length xs) then Inr (xs ! nat i) else Inl IndexError)"
  by (simp add: py_index_def)

lemma arpeggio_octave_eq:
  assumes "0 \<le> oct"
  shows "arpeggio_octave sp n oct =
           (if list_all (\<lambda>i. i < int (length sp)) (required_indices n oct)
            then Inr (map (\<lambda>i. sp ! nat i) (required_indices n oct))
            else Inl IndexError)"
  using assms
  by (simp add: arpeggio_octave_def required_indices_def py_index_nonneg Let_def)

lemma arpeggio_loop_eq:
  assumes "\<forall>oct \<in> set octs. 0 \<le> oct"
  shows "arpeggio_loop sp n octs acc = Inr (acc @ concat (map (octave_tones sp n) octs))"
  using assms
  by (induction octs arbitrary: acc) (simp_all add: arpeggio_octave_eq octave_tones_def)

lemma arpeggio_up_of_eq:
  "arpeggio_up_of sp n = Inr (concat (map (octave_tones sp n) [0 .. n - 1]))"
  by (simp add: arpeggio_up_of_def arpeggio_loop_eq)

lemma arpeggio_all_pitches_eq:
  "arpeggio_all_pitches sp n =
     Inr (let up = concat (map (octave_tones sp n) [0 .. n - 1])
          in up @ (if 1 < length up then rev (butlast up) else []))"
  by (simp add: arpeggio_all_pitches_def arpeggio_up_of_eq Let_def)



subsection \<open>The Measure Packer for arpeggios\<close>

lemma arpeggio_group_Cons:
  "arpeggio_group (p # g) = fill (append_note Measure (spelled_note ''eighth'' p)) g"
  by (simp add: arpeggio_group_def fill_def append_note_def Measure_def)

text \<open>
  The loop from a state in which a measure is open, with \<open>c\<close> notes in it: the open
  measure takes the next \<open>8 - c\<close> pitches, the rest goes into new measures group by
  group, and the final pitch gets its own measure.
\<close>

lemma arpeggio_pack_loop_running:
  fixes cur :: "'k measure"
  assumes "mnotes cur \<noteq> []" "0 < c" "c \<le> 8" "cnt mod 8 = int c mod 8" "0 < i"
    and "len = i + int (length body) + 1"
  shows "arpeggio_pack_loop title_text 8 len i (body @ [final]) ms cur cnt =
           Inr (ms @ fill cur (take (8 - c) body)
                  # map arpeggio_group (chunks 8 (drop (8 - c) body)) @ [final_measure final])"
  using assms
proof (induction body arbitrary: ms cur cnt c i)
  case Nil
  then show ?case
    by (simp add: fix_Note Measure_def append_note_def final_measure_def)
next
  case (Cons p body)
  have ne: "i \<noteq> len - 1" using Cons.prems by simp
  have i0: "i \<noteq> 0" using Cons.prems by simp
  show ?case
  proof (cases "c = 8")
    case True
    then have z: "cnt mod 8 = 0" using Cons.prems by simp
    let ?m = "append_note Measure (spelled_note ''eighth'' p) :: 'k measure"
    have one: "arpeggio_pack_loop title_text 8 len i ((p # body) @ [final]) ms cur cnt =
          arpeggio_pack_loop title_text 8 len (i + 1) (body @ [final]) (ms @ [cur]) ?m (cnt + 1)"
      using ne i0 z Cons.prems(1) by (simp add: fix_Note Let_def)
    have "(cnt + 1) mod 8 = (0 + 1) mod 8"
      using z by (intro mod_add_cong) simp_all
    then have step: "(cnt + 1) mod 8 = int 1 mod 8"
      by simp
    have "arpeggio_pack_loop title_text 8 len (i + 1) (body @ [final]) (ms @ [cur]) ?m (cnt + 1) =
           Inr ((ms @ [cur]) @ fill ?m (take (8 - 1) body)
                  # map arpeggio_group (chunks 8 (drop (8 - 1) body)) @ [final_measure final])"
      using Cons.prems step
      by (intro Cons.IH) (simp_all add: append_note_def)
    with one True show ?thesis
      by (simp add: chunks_Cons arpeggio_group_Cons)
  next
    case False
    then have c7: "c < 8" using Cons.prems by simp
    then have nz: "cnt mod 8 \<noteq> 0" using Cons.prems by simp
    let ?m = "append_note cur (spelled_note ''eighth'' p)"
    have one: "arpeggio_pack_loop title_text 8 len i ((p # body) @ [final]) ms cur cnt =
          arpeggio_pack_loop title_text 8 len (i + 1) (body @ [final]) ms ?m (cnt + 1)"
      using ne nz by (simp add: fix_Note Let_def)
    have "(cnt + 1) mod 8 = (int c + 1) mod 8"
      using Cons.prems(4) by (rule mod_add_cong) simp
    then have step: "(cnt + 1) mod 8 = int (c + 1) mod 8"
      by (simp only: of_nat_add of_nat_1)
    have "arpeggio_pack_loop title_text 8 len (i + 1) (body @ [final]) ms ?m (cnt + 1) =
           Inr (ms @ fill ?m (take (8 - (c + 1)) body)
                  # map arpeggio_group (chunks 8 (drop (8 - (c + 1)) body)) @ [final_measure final])"
      using Cons.prems c7 step
      by (intro Cons.IH) (simp_all add: append_note_def)
    with one c7 show ?thesis
      by (simp add: take_Cons' drop_Cons' fill_Cons)
  qed
qed

lemma pack_arpeggio_eq:
  "pack_arpeggio title_text all_pitches = Inr (packed_arpeggio title_text all_pitches)"
proof (cases all_pitches)
  case Nil
  then show ?thesis by (simp add: pack_arpeggio_def packed_arpeggio_def)
next
  case (Cons p rest)
  show ?thesis
  proof (cases rest rule: rev_cases)
    case Nil
    with Cons show ?thesis
      by (simp add: pack_arpeggio_def packed_arpeggio_def fix_Note Measure_def insert0_def
          append_note_def final_measure_def with_title_def)
  next
    case (snoc body final)
    let ?m = "append_note (insert0 (TextExpression title_text ''above'') Measure)
                (spelled_note ''eighth'' p) :: 'a measure"
    have "pack_arpeggio title_text all_pitches =
          arpeggio_pack_loop title_text 8 (int (length all_pitches)) 1 (body @ [final]) [] ?m 1"
      using Cons snoc by (simp add: pack_arpeggio_def fix_Note Measure_def Let_def)
    also have "\<dots> = Inr ([] @ fill ?m (take (8 - 1) body)
                  # map arpeggio_group (chunks 8 (drop (8 - 1) body)) @ [final_measure final])"
      using Cons snoc by (intro arpeggio_pack_loop_running) (simp_all add: append_note_def)
    finally show ?thesis using Cons snoc
      by (simp add: packed_arpeggio_def butlast_append chunks_Cons with_title_def
          arpeggio_group_def fill_def append_note_def insert0_def Measure_def)
  qed
qed



lemma packed_arpeggio_title:
  assumes "all_pitches \<noteq> []"
  shows "annotations (hd (packed_arpeggio title_text all_pitches :: 'k measure list)) =
           [TextExpression title_text ''above'']
       \<and> (\<forall>m \<in> set (tl (packed_arpeggio title_text all_pitches :: 'k measure list)).
            annotations m = [])"
proof -
  let ?body = "map arpeggio_group (chunks 8 (butlast all_pitches))
                 @ [final_measure (last all_pitches)] :: 'k measure list"
  have body_ann: "\<forall>m \<in> set ?body. annotations m = []"
    by (auto simp: final_measure_def arpeggio_group_def)
  have "hd ?body \<in> set ?body"
    by (rule hd_in_set) simp
  then have "annotations (hd ?body) = []"
    using body_ann by blast
  then have hdm: "annotations (hd (with_title title_text ?body)) = [TextExpression title_text ''above'']"
    by (simp add: with_title_hd)
  have "\<And>m. m \<in> set (tl ?body) \<Longrightarrow> m \<in> set ?body"
    by (rule list.set_sel(2)) simp
  then have tlm: "\<forall>m \<in> set (tl (with_title title_text ?body)). annotations m = []"
    using body_ann unfolding with_title_tl by blast
  from hdm tlm show ?thesis using assms by (simp add: packed_arpeggio_def)
qed








lemma length_required_inner:
  "int k \<le> n - 1 \<Longrightarrow> length (concat (map (required_indices n) [0 .. int k - 1])) = 3 * k"
proof (induction k)
  case 0
  then show ?case by simp
next
  case (Suc k)
  have "[0 .. int (Suc k) - 1] = [0 .. int k - 1] @ [int k]"
    using upto_rec2[of 0 "int k"] by simp
  then show ?case using Suc by (simp add: required_indices_def)
qed

lemma length_required:
  assumes "0 < n"
  shows "int (length (concat (map (required_indices n) [0 .. n - 1]))) = 3 * (n - 1) + 4"
proof -
  have "[0 .. n - 1] = [0 .. int (nat (n - 1)) - 1] @ [n - 1]"
    using assms upto_rec2[of 0 "n - 1"] by simp
  then show ?thesis
    using length_required_inner[of "nat (n - 1)" n] assms
    by (simp add: required_indices_def)
qed

lemma octave_tones_full:
  assumes "7 * n + 1 \<le> int (length sp)" "oct \<le> n - 1"
  shows "octave_tones sp n oct = map (\<lambda>i. sp ! nat i) (required_indices n oct)"
  using assms by (simp add: octave_tones_def required_indices_def)

lemma arpeggio_up_full:
  assumes "7 * n + 1 \<le> int (length sp)"
  shows "concat (map (octave_tones sp n) [0 .. n - 1]) =
           map (\<lambda>i. sp ! nat i) (concat (map (required_indices n) [0 .. n - 1]))"
proof -
  have "map (octave_tones sp n) [0 .. n - 1] =
        map (\<lambda>oct. map (\<lambda>i. sp ! nat i) (required_indices n oct)) [0 .. n - 1]"
    using assms by (intro map_cong refl octave_tones_full) simp_all
  then have "concat (map (octave_tones sp n) [0 .. n - 1]) =
        concat (map (\<lambda>oct. map (\<lambda>i. sp ! nat i) (required_indices n oct)) [0 .. n - 1])"
    by (rule arg_cong)
  also have "\<dots> = map (\<lambda>i. sp ! nat i) (concat (map (required_indices n) [0 .. n - 1]))"
    by (simp add: map_concat comp_def)
  finally show ?thesis .
qed

text \<open>
  Claim C3: with a positive \<open>num_octaves\<close> and at least \<open>7 * num_octaves + 1\<close> scale
  pitches, the ascent reads root, third and fifth of every octave and, after the fifth of
  the last octave only, the upper octave tone: \<open>3 * (num_octaves - 1) + 4\<close> tones. The
  full sequence is the ascent followed by the reverse of the ascent without its last
  pitch; for two octaves the ascent has 7 tones and the full sequence 13. For any scale
  pitches and any octave count, the descending half is empty when the ascent has at most
  one pitch.
\<close>

theorem arpeggio_sequencer:
  assumes "0 < num_octaves" "7 * num_octaves + 1 \<le> int (length scale_pitches)"
  shows "(\<exists>arpeggio_up.
           arpeggio_up_of scale_pitches num_octaves = Inr arpeggio_up
         \<and> arpeggio_up = map (\<lambda>i. scale_pitches ! nat i)
                            (concat (map (required_indices num_octaves) [0 .. num_octaves - 1]))
         \<and> int (length arpeggio_up) = 3 * (num_octaves - 1) + 4
         \<and> arpeggio_all_pitches scale_pitches num_octaves =
             Inr (arpeggio_up @ (if 1 < length arpeggio_up then rev (butlast arpeggio_up) else []))
         \<and> arpeggio_all_pitches scale_pitches num_octaves =
             Inr (arpeggio_up @ rev (butlast arpeggio_up))
         \<and> int (length (arpeggio_up @ rev (butlast arpeggio_up))) = 6 * num_octaves + 1
         \<and> (num_octaves = 2 \<longrightarrow> length arpeggio_up = 7
               \<and> length (arpeggio_up @ rev (butlast arpeggio_up)) = 13))
       \<and> (\<exists>any_up. arpeggio_up_of any_pitches any_octaves = Inr any_up
            \<and> arpeggio_all_pitches any_pitches any_octaves =
                Inr (any_up @ (if 1 < length any_up then rev (butlast any_up) else [])))"
proof -
  let ?up = "map (\<lambda>i. scale_pitches ! nat i)
               (concat (map (required_indices num_octaves) [0 .. num_octaves - 1]))"
  have up: "arpeggio_up_of scale_pitches num_octaves = Inr ?up"
    using assms by (simp add: arpeggio_up_of_eq arpeggio_up_full)
  have len: "int (length ?up) = 3 * (num_octaves - 1) + 4"
    using length_required[OF assms(1)] by simp
  have "1 < int (length ?up)" unfolding len using assms(1) by simp
  then have gt: "1 < length ?up" by simp
  have all: "arpeggio_all_pitches scale_pitches num_octaves =
               Inr (?up @ (if 1 < length ?up then rev (butlast ?up) else []))"
    using assms by (simp add: arpeggio_all_pitches_eq arpeggio_up_full Let_def)
  then have all2: "arpeggio_all_pitches scale_pitches num_octaves = Inr (?up @ rev (butlast ?up))"
    using gt by simp
  have len2: "int (length (?up @ rev (butlast ?up))) = 6 * num_octaves + 1"
    using len gt by simp
  have two: "num_octaves = 2 \<longrightarrow> length ?up = 7 \<and> length (?up @ rev (butlast ?up)) = 13"
    using len len2 by auto
  have general: "\<exists>any_up. arpeggio_up_of any_pitches any_octaves = Inr any_up
            \<and> arpeggio_all_pitches any_pitches any_octaves =
                Inr (any_up @ (if 1 < length any_up then rev (butlast any_up) else []))"
    by (simp add: arpeggio_up_of_eq arpeggio_all_pitches_eq Let_def)
  from up len all all2 len2 two have
    "\<exists>arpeggio_up.
           arpeggio_up_of scale_pitches num_octaves = Inr arpeggio_up
         \<and> arpeggio_up = ?up
         \<and> int (length arpeggio_up) = 3 * (num_octaves - 1) + 4
         \<and> arpeggio_all_pitches scale_pitches num_octaves =
             Inr (arpeggio_up @ (if 1 < length arpeggio_up then rev (butlast arpeggio_up) else []))
         \<and> arpeggio_all_pitches scale_pitches num_octaves =
             Inr (arpeggio_up @ rev (butlast arpeggio_up))
         \<and> int (length (arpeggio_up @ rev (butlast arpeggio_up))) = 6 * num_octaves + 1
         \<and> (num_octaves = 2 \<longrightarrow> length arpeggio_up = 7
               \<and> length (arpeggio_up @ rev (butlast arpeggio_up)) = 13)"
    by (intro exI[of _ ?up] conjI) (rule refl | assumption)+
  with general show ?thesis by (intro conjI)
qed

theorem arpeggio_sequencer_witness:
  "(0::int) < 2
   \<and> 7 * 2 + 1 \<le> int (length (getPitches (MajorScale (natural_pitch StepC 4))
                  (pitch_at (natural_pitch StepC 4) 4) (pitch_at (natural_pitch StepC 4) 6)))
   \<and> (\<exists>arpeggio_up.
         arpeggio_up_of (getPitches (MajorScale (natural_pitch StepC 4))
                  (pitch_at (natural_pitch StepC 4) 4) (pitch_at (natural_pitch StepC 4) 6)) 2
           = Inr arpeggio_up
       \<and> length arpeggio_up = 7
       \<and> arpeggio_all_pitches (getPitches (MajorScale (natural_pitch StepC 4))
                  (pitch_at (natural_pitch StepC 4) 4) (pitch_at (natural_pitch StepC 4) 6)) 2
           = Inr (arpeggio_up @ rev (butlast arpeggio_up))
       \<and> length (arpeggio_up @ rev (butlast arpeggio_up)) = 13)"
proof -
  define sp where "sp = getPitches (MajorScale (natural_pitch StepC 4))
                  (pitch_at (natural_pitch StepC 4) 4) (pitch_at (natural_pitch StepC 4) 6)"
  have pos: "(0::int) < 2" by simp
  have "length (getPitches (MajorScale (natural_pitch StepC 4))
                  (pitch_at (natural_pitch StepC 4) 4) (pitch_at (natural_pitch StepC 4) (4 + 2)))
          = nat (7 * 2 + 1)"
    by (subst getPitches_MajorScale) simp_all
  then have len: "7 * 2 + 1 \<le> int (length sp)"
    by (simp add: sp_def)
  from arpeggio_sequencer[OF pos len, THEN conjunct1]
  obtain arpeggio_up where
    a: "arpeggio_up_of sp 2 = Inr arpeggio_up" and
    b: "arpeggio_all_pitches sp 2 = Inr (arpeggio_up @ rev (butlast arpeggio_up))" and
    c: "(2::int) = 2 \<longrightarrow> length arpeggio_up = 7
               \<and> length (arpeggio_up @ rev (butlast arpeggio_up)) = 13"
    by (elim exE conjE) (rule that; assumption)
  from c have d: "length arpeggio_up = 7" "length (arpeggio_up @ rev (butlast arpeggio_up)) = 13"
    by simp_all
  have "\<exists>arpeggio_up. arpeggio_up_of sp 2 = Inr arpeggio_up
       \<and> length arpeggio_up = 7
       \<and> arpeggio_all_pitches sp 2 = Inr (arpeggio_up @ rev (butlast arpeggio_up))
       \<and> length (arpeggio_up @ rev (butlast arpeggio_up)) = 13"
    using a b d by (intro exI[of _ arpeggio_up] conjI)
  with pos len show ?thesis unfolding sp_def by (intro conjI)
qed

section \<open>The Exercise Assembler: results\<close>

lemma pack_arpeggio_first:
  assumes "pitches \<noteq> []"
  shows "\<exists>(m :: 'k measure) ms'. pack_arpeggio title_text pitches = Inr (m # ms')
           \<and> annotations m = [TextExpression title_text ''above'']"
proof -
  let ?body = "map arpeggio_group (chunks 8 (butlast pitches))
                 @ [final_measure (last pitches)] :: 'k measure list"
  obtain m rest where b: "?body = m # rest" by (cases ?body) auto
  then have "m \<in> set ?body" by simp
  then have "annotations m = []"
    by (auto simp: arpeggio_group_def final_measure_def)
  then show ?thesis using assms b
    by (simp add: pack_arpeggio_eq packed_arpeggio_def with_title_def)
qed

lemma pack_scale_first:
  assumes "all_pitches \<noteq> []"
  shows "\<exists>(m :: 'k measure) ms'. pack_scale title_text all_pitches = Inr (m # ms')
           \<and> annotations m = [TextExpression title_text ''above'']"
proof -
  let ?body = "map scale_group (chunks 7 (butlast all_pitches))
                 @ [final_measure (last all_pitches)] :: 'k measure list"
  obtain m rest where b: "?body = m # rest" by (cases ?body) auto
  then have "m \<in> set ?body" by simp
  then have "annotations m = []"
    by (auto simp: scale_group_def final_measure_def)
  then show ?thesis using assms b
    by (simp add: pack_scale_eq packed_scale_def with_title_def)
qed

lemma scale_all_pitches_nonempty:
  assumes "0 \<le> oct" "0 < n"
  shows "\<exists>p rest. scale_all_pitches (MajorScale t) oct n = Inr (p # rest)"
proof -
  let ?up = "map (\<lambda>k. degree_pitch t oct (int k)) [0 ..< nat (7 * n + 1)]"
  have "?up \<noteq> []" using assms(2) by simp
  then have "?up @ rev (butlast ?up) \<noteq> []" by simp
  then obtain p rest where "?up @ rev (butlast ?up) = p # rest"
    unfolding neq_Nil_conv by (elim exE)
  moreover have "scale_all_pitches (MajorScale t) oct n = Inr (?up @ rev (butlast ?up))"
    using assms by (intro scale_all_pitches_MajorScale) simp_all
  ultimately show ?thesis by simp
qed

lemma arpeggio_all_pitches_major:
  assumes "0 < n"
  shows "\<exists>p rest. arpeggio_all_pitches
            (getPitches (MajorScale t) (pitch_at t oct) (pitch_at t (oct + n))) n = Inr (p # rest)"
proof -
  let ?sp = "getPitches (MajorScale t) (pitch_at t oct) (pitch_at t (oct + n))"
  let ?up = "concat (map (octave_tones ?sp n) [0 .. n - 1])"
  have n: "0 \<le> n" using assms by simp
  have full: "7 * n + 1 \<le> int (length ?sp)"
    using assms by (simp add: getPitches_MajorScale[OF n])
  have len: "int (length ?up) = 3 * (n - 1) + 4"
    using length_required[OF assms] by (simp add: arpeggio_up_full[OF full])
  have "0 < int (length ?up)" unfolding len using assms by simp
  then have "0 < length ?up" by (simp only: of_nat_0_less_iff)
  then obtain p rest where "?up = p # rest"
    unfolding length_greater_0_conv neq_Nil_conv by (elim exE)
  then show ?thesis
    by (simp add: arpeggio_all_pitches_eq Let_def)
qed

lemma instrument_map_octave:
  assumes "map_of instrument_map instrument_name = Some (c, oct)"
  shows "0 \<le> oct"
proof -
  from assms have "(instrument_name, (c, oct)) \<in> set instrument_map"
    by (rule map_of_SomeD)
  then show ?thesis
    by (auto simp: instrument_map_def)
qed

lemma selected_octave_nonneg:
  assumes "(case determine_clef_and_octave instrument_name ''right'' of
            ClefDict d \<Rightarrow> (case map_of d ''right'' of Some r \<Rightarrow> r | None \<Rightarrow> (''TrebleClef'', 4))
          | ClefTuple r \<Rightarrow> r) = (selected_clef, octave_start)"
  shows "0 \<le> octave_start"
proof (cases "instrument_name = ''Piano''")
  case True
  with assms show ?thesis by (simp add: determine_clef_and_octave_def)
next
  case False
  note not_piano = this
  show ?thesis
  proof (cases "instrument_name \<in> set unpitched_percussion")
    case True
    with assms not_piano show ?thesis by (simp add: determine_clef_and_octave_def)
  next
    case False
    show ?thesis
    proof (cases "map_of instrument_map instrument_name")
      case None
      with assms not_piano False show ?thesis by (simp add: determine_clef_and_octave_def)
    next
      case (Some r)
      with assms not_piano False have "r = (selected_clef, octave_start)"
        by (simp add: determine_clef_and_octave_def)
      with Some show ?thesis using instrument_map_octave by simp
    qed
  qed
qed

text \<open>
  Claim C4, as the program has it. For a key whose constructors succeed and a positive
  \<open>num_octaves\<close>, the part is: the instrument object, a system-break marker, the scale
  measures, a system-break marker, the arpeggio measures. The first scale measure
  carries the title, the clef and the key object; the first arpeggio measure carries
  the title and the key object, and no clef. The part ends with the last arpeggio
  measure: the two system-break markers stand before the scale block and between the
  two blocks.
\<close>

theorem exercise_assembler:
  assumes "instrument_fromString lib instrument_name = Inr instr_obj"
    and "key_Key lib key_signature ''major'' = Inr major_key_obj"
    and "scale_MajorScale lib key_signature = Inr (MajorScale t)"
    and "0 < num_octaves"
    and "(case determine_clef_and_octave instrument_name ''right'' of
            ClefDict d \<Rightarrow> (case map_of d ''right'' of Some r \<Rightarrow> r | None \<Rightarrow> (''TrebleClef'', 4))
          | ClefTuple r \<Rightarrow> r) = (selected_clef, octave_start)"
  shows "\<exists>first_m scale_rest first_arp arp_rest.
      create_scale_measures (key_signature @ '' Major Scale'') (MajorScale t)
        octave_start num_octaves = Inr (first_m # scale_rest)
    \<and> annotations first_m = [TextExpression (key_signature @ '' Major Scale'') ''above'']
    \<and> create_arpeggio_measures (key_signature @ '' Major Arpeggio'') (MajorScale t)
        octave_start num_octaves = Inr (first_arp # arp_rest)
    \<and> annotations first_arp = [TextExpression (key_signature @ '' Major Arpeggio'') ''above'']
    \<and> create_part_for_single_key_scales_arpeggios lib key_signature num_octaves instrument_name =
        Inr ([InstrumentEl instr_obj, SystemLayout True]
             @ MeasureEl (first_m\<lparr>annotations :=
                            [TextExpression (key_signature @ '' Major Scale'') ''above'',
                             Clef selected_clef, KeyObject major_key_obj]\<rparr>)
               # map MeasureEl scale_rest
             @ [SystemLayout True]
             @ MeasureEl (first_arp\<lparr>annotations :=
                            [TextExpression (key_signature @ '' Major Arpeggio'') ''above'',
                             KeyObject major_key_obj]\<rparr>)
               # map MeasureEl arp_rest)"
proof -
  let ?st = "key_signature @ '' Major Scale''"
  let ?at = "key_signature @ '' Major Arpeggio''"
  have oct: "0 \<le> octave_start"
    using assms(5) by (rule selected_octave_nonneg)
  have top: "0 \<le> octave_start + num_octaves"
    using oct assms(4) by simp
  have tonic: "tonic (MajorScale t) = t" by (simp add: MajorScale_def)
  obtain q others where
    sp: "scale_all_pitches (MajorScale t) octave_start num_octaves = Inr (q # others)"
    using scale_all_pitches_nonempty[OF oct assms(4)] by blast
  obtain first_m :: "'b measure" and scale_rest where
    ps: "pack_scale ?st (q # others) = Inr (first_m # scale_rest)"
    and sa: "annotations first_m = [TextExpression ?st ''above'']"
    using pack_scale_first[of "q # others" ?st] by auto
  have s: "create_scale_measures ?st (MajorScale t) octave_start num_octaves = Inr (first_m # scale_rest)"
    using sp ps by (simp add: create_scale_measures_def)
  obtain p rest where
    ap: "arpeggio_all_pitches (getPitches (MajorScale t) (pitch_at t octave_start)
           (pitch_at t (octave_start + num_octaves))) num_octaves = Inr (p # rest)"
    using arpeggio_all_pitches_major[OF assms(4)] by blast
  obtain first_arp :: "'b measure" and arp_rest where
    a: "pack_arpeggio ?at (p # rest) = Inr (first_arp # arp_rest)"
    and aa: "annotations first_arp = [TextExpression ?at ''above'']"
    using pack_arpeggio_first[of "p # rest" ?at] by auto
  have a': "create_arpeggio_measures ?at (MajorScale t) octave_start num_octaves
              = Inr (first_arp # arp_rest)"
    using ap a
    by (simp add: create_arpeggio_measures_def Let_def tonic named_pitch_nonneg[OF oct]
        named_pitch_nonneg[OF top])
  have part: "create_part_for_single_key_scales_arpeggios lib key_signature num_octaves instrument_name =
        Inr ([InstrumentEl instr_obj, SystemLayout True]
             @ MeasureEl (first_m\<lparr>annotations := [TextExpression ?st ''above'',
                             Clef selected_clef, KeyObject major_key_obj]\<rparr>)
               # map MeasureEl scale_rest
             @ [SystemLayout True]
             @ MeasureEl (first_arp\<lparr>annotations := [TextExpression ?at ''above'',
                             KeyObject major_key_obj]\<rparr>)
               # map MeasureEl arp_rest)"
    using assms(1,2,3,5) s a' sa aa
    by (simp add: create_part_for_single_key_scales_arpeggios_def Let_def insert0_def)
  from s sa a' aa part show ?thesis by blast
qed

lemma C_major_part:
  "create_part_for_single_key_scales_arpeggios example_library ''C'' 1 ''Piano'' =
     Inr [InstrumentEl ''Piano'',
            SystemLayout True,
            MeasureEl
              \<lparr>annotations = [TextExpression ''C Major Scale'' ''above'', Clef ''TrebleClef'', KeyObject (''C'', ''major'')],
               mnotes =
                 [\<lparr>pitch = Some (natural_pitch StepC 4), duration = Duration_type ''quarter''\<rparr>,
                  \<lparr>pitch = Some (natural_pitch StepD 4), duration = Duration_type ''eighth''\<rparr>,
                  \<lparr>pitch = Some (natural_pitch StepE 4), duration = Duration_type ''eighth''\<rparr>,
                  \<lparr>pitch = Some (natural_pitch StepF 4), duration = Duration_type ''eighth''\<rparr>,
                  \<lparr>pitch = Some (natural_pitch StepG 4), duration = Duration_type ''eighth''\<rparr>,
                  \<lparr>pitch = Some (natural_pitch StepA 4), duration = Duration_type ''eighth''\<rparr>,
                  \<lparr>pitch = Some (natural_pitch StepB 4), duration = Duration_type ''eighth''\<rparr>]\<rparr>,
            MeasureEl
              \<lparr>annotations = [],
               mnotes =
                 [\<lparr>pitch = Some (natural_pitch StepC 5), duration = Duration_type ''quarter''\<rparr>,
                  \<lparr>pitch = Some (natural_pitch StepB 4), duration = Duration_type ''eighth''\<rparr>,
                  \<lparr>pitch = Some (natural_pitch StepA 4), duration = Duration_type ''eighth''\<rparr>,
                  \<lparr>pitch = Some (natural_pitch StepG 4), duration = Duration_type ''eighth''\<rparr>,
                  \<lparr>pitch = Some (natural_pitch StepF 4), duration = Duration_type ''eighth''\<rparr>,
                  \<lparr>pitch = Some (natural_pitch StepE 4), duration = Duration_type ''eighth''\<rparr>,
                  \<lparr>pitch = Some (natural_pitch StepD 4), duration = Duration_type ''eighth''\<rparr>]\<rparr>,
            MeasureEl
              \<lparr>annotations = [],
               mnotes =
                 [\<lparr>pitch = Some (natural_pitch StepC 4), duration = Duration_type ''whole''\<rparr>]\<rparr>,
            SystemLayout True,
            MeasureEl
              \<lparr>annotations = [TextExpression ''C Major Arpeggio'' ''above'', KeyObject (''C'', ''major'')],
               mnotes =
                 [\<lparr>pitch = Some (natural_pitch StepC 4), duration = Duration_type ''eighth''\<rparr>,
                  \<lparr>pitch = Some (natural_pitch StepE 4), duration = Duration_type ''eighth''\<rparr>,
                  \<lparr>pitch = Some (natural_pitch StepG 4), duration = Duration_type ''eighth''\<rparr>,
                  \<lparr>pitch = Some (natural_pitch StepC 5), duration = Duration_type ''eighth''\<rparr>,
                  \<lparr>pitch = Some (natural_pitch StepG 4), duration = Duration_type ''eighth''\<rparr>,
                  \<lparr>pitch = Some (natural_pitch StepE 4), duration = Duration_type ''eighth''\<rparr>]\<rparr>,
            MeasureEl
              \<lparr>annotations = [],
               mnotes =
                 [\<lparr>pitch = Some (natural_pitch StepC 4), duration = Duration_type ''whole''\<rparr>]\<rparr>]"
  by code_simp


theorem exercise_assembler_witness:
  "instrument_fromString example_library ''Piano'' = Inr ''Piano''
   \<and> key_Key example_library ''C'' ''major'' = Inr (''C'', ''major'')
   \<and> scale_MajorScale example_library ''C'' = Inr (MajorScale (natural_pitch StepC 4))
   \<and> (0::int) < 1
   \<and> (\<exists>first_m scale_rest first_arp arp_rest.
        create_part_for_single_key_scales_arpeggios example_library ''C'' 1 ''Piano'' =
          Inr ([InstrumentEl ''Piano'', SystemLayout True]
               @ MeasureEl (first_m\<lparr>annotations :=
                              [TextExpression ''C Major Scale'' ''above'',
                               Clef ''TrebleClef'', KeyObject (''C'', ''major'')]\<rparr>)
                 # map MeasureEl scale_rest
               @ [SystemLayout True]
               @ MeasureEl (first_arp\<lparr>annotations :=
                              [TextExpression ''C Major Arpeggio'' ''above'',
                               KeyObject (''C'', ''major'')]\<rparr>)
                 # map MeasureEl arp_rest))"
proof -
  have i: "instrument_fromString example_library ''Piano'' = Inr ''Piano''"
    by (simp add: example_library_def)
  have k: "key_Key example_library ''C'' ''major'' = Inr (''C'', ''major'')"
    by (simp add: example_library_def)
  have s: "scale_MajorScale example_library ''C'' = Inr (MajorScale (natural_pitch StepC 4))"
    by (simp add: example_library_def set_name_C natural_pitch_def)
  have pos: "(0::int) < 1" by simp
  have c: "(case determine_clef_and_octave ''Piano'' ''right'' of
            ClefDict d \<Rightarrow> (case map_of d ''right'' of Some r \<Rightarrow> r | None \<Rightarrow> (''TrebleClef'', 4))
          | ClefTuple r \<Rightarrow> r) = (''TrebleClef'', 4)"
    by (simp add: determine_clef_and_octave_def)
  from exercise_assembler[OF i k s pos c]
  obtain first_m scale_rest first_arp arp_rest where
    "create_part_for_single_key_scales_arpeggios example_library ''C'' 1 ''Piano'' =
          Inr ([InstrumentEl ''Piano'', SystemLayout True]
               @ MeasureEl (first_m\<lparr>annotations :=
                              [TextExpression (''C'' @ '' Major Scale'') ''above'',
                               Clef ''TrebleClef'', KeyObject (''C'', ''major'')]\<rparr>)
                 # map MeasureEl scale_rest
               @ [SystemLayout True]
               @ MeasureEl (first_arp\<lparr>annotations :=
                              [TextExpression (''C'' @ '' Major Arpeggio'') ''above'',
                               KeyObject (''C'', ''major'')]\<rparr>)
                 # map MeasureEl arp_rest)"
    by (elim exE conjE) (rule that; assumption)
  then have "\<exists>first_m scale_rest first_arp arp_rest.
        create_part_for_single_key_scales_arpeggios example_library ''C'' 1 ''Piano'' =
          Inr ([InstrumentEl ''Piano'', SystemLayout True]
               @ MeasureEl (first_m\<lparr>annotations :=
                              [TextExpression ''C Major Scale'' ''above'',
                               Clef ''TrebleClef'', KeyObject (''C'', ''major'')]\<rparr>)
                 # map MeasureEl scale_rest
               @ [SystemLayout True]
               @ MeasureEl (first_arp\<lparr>annotations :=
                              [TextExpression ''C Major Arpeggio'' ''above'',
                               KeyObject (''C'', ''major'')]\<rparr>)
                 # map MeasureEl arp_rest)"
    by (intro exI[of _ first_m] exI[of _ scale_rest] exI[of _ first_arp] exI[of _ arp_rest]) simp
  with i k s pos show ?thesis by (intro conjI)
qed


text \<open>
  Claim C4 fails as stated for the key C, one octave, on the piano: the last element of
  the part is the whole-note measure of the arpeggio, not a system-break marker, and the
  first measure of the arpeggio block (element 6, after the marker at 5) has a title and
  a key object but no clef.
\<close>

theorem exercise_assembler_counterexample:
  "last (projr (create_part_for_single_key_scales_arpeggios example_library ''C'' 1 ''Piano''))
     = MeasureEl \<lparr>annotations = [],
                  mnotes = [\<lparr>pitch = Some (natural_pitch StepC 4),
                             duration = Duration_type ''whole''\<rparr>]\<rparr>
   \<and> last (projr (create_part_for_single_key_scales_arpeggios example_library ''C'' 1 ''Piano''))
       \<noteq> SystemLayout True
   \<and> projr (create_part_for_single_key_scales_arpeggios example_library ''C'' 1 ''Piano'') ! 5
       = SystemLayout True
   \<and> projr (create_part_for_single_key_scales_arpeggios example_library ''C'' 1 ''Piano'') ! 6
       = MeasureEl
         \<lparr>annotations = [TextExpression ''C Major Arpeggio'' ''above'', KeyObject (''C'', ''major'')],
          mnotes =
            [\<lparr>pitch = Some (natural_pitch StepC 4), duration = Duration_type ''eighth''\<rparr>,
             \<lparr>pitch = Some (natural_pitch StepE 4), duration = Duration_type ''eighth''\<rparr>,
             \<lparr>pitch = Some (natural_pitch StepG 4), duration = Duration_type ''eighth''\<rparr>,
             \<lparr>pitch = Some (natural_pitch StepC 5), duration = Duration_type ''eighth''\<rparr>,
             \<lparr>pitch = Some (natural_pitch StepG 4), duration = Duration_type ''eighth''\<rparr>,
             \<lparr>pitch = Some (natural_pitch StepE 4), duration = Duration_type ''eighth''\<rparr>]\<rparr>"
  by (simp add: C_major_part)


section \<open>The Rhythm Line Builder: results\<close>

lemma rhythm_violin:
  assumes "instrument_fromString lib ''Violin'' = Inr instr_obj"
  shows "create_custom_rhythm_part lib title_text [[1], [1 / 2, 1 / 2]] ''Violin'' =
     Inr [InstrumentEl instr_obj, SystemLayout True,
          MeasureEl \<lparr>annotations = [TextExpression title_text ''above''],
                     mnotes = [\<lparr>pitch = Some (natural_pitch StepG 3),
                                duration = Duration_quarterLength 4\<rparr>]\<rparr>,
          MeasureEl \<lparr>annotations = [],
                     mnotes = [\<lparr>pitch = Some (natural_pitch StepG 3),
                                duration = Duration_quarterLength 2\<rparr>,
                               \<lparr>pitch = Some (natural_pitch StepG 3),
                                duration = Duration_quarterLength 2\<rparr>]\<rparr>]"
  using assms
  by (simp add: create_custom_rhythm_part_def EASIEST_NOTE_MAP_def fix_enharmonic_spelling_eq
      Note_def respelled_def natural_pitch_def alter_of_def Measure_def insert0_def append_note_def
      Let_def)


text \<open>
  Claim C7, as the program has it: for the pattern \<open>[[1], [0.5, 0.5]]\<close> on the violin,
  a part with two measures; the first has the title and one note of duration 4, the
  second two notes of duration 2 each; every note is at G3, the violin's entry in
  \<open>EASIEST_NOTE_MAP\<close>.
\<close>

theorem rhythm_line_builder_violin:
  assumes "instrument_fromString lib ''Violin'' = Inr instr_obj"
  shows "EASIEST_NOTE_MAP ''Violin'' = Some (natural_pitch StepG 3)
   \<and> create_custom_rhythm_part lib title_text [[1], [1 / 2, 1 / 2]] ''Violin'' =
     Inr [InstrumentEl instr_obj, SystemLayout True,
          MeasureEl \<lparr>annotations = [TextExpression title_text ''above''],
                     mnotes = [\<lparr>pitch = Some (natural_pitch StepG 3),
                                duration = Duration_quarterLength 4\<rparr>]\<rparr>,
          MeasureEl \<lparr>annotations = [],
                     mnotes = [\<lparr>pitch = Some (natural_pitch StepG 3),
                                duration = Duration_quarterLength 2\<rparr>,
                               \<lparr>pitch = Some (natural_pitch StepG 3),
                                duration = Duration_quarterLength 2\<rparr>]\<rparr>]"
  using rhythm_violin[OF assms] by (simp add: EASIEST_NOTE_MAP_def)


theorem rhythm_line_builder_violin_witness:
  "instrument_fromString example_library ''Violin'' = Inr ''Violin''
   \<and> create_custom_rhythm_part example_library ''My Custom Rhythm'' [[1], [1 / 2, 1 / 2]] ''Violin'' =
     Inr [InstrumentEl ''Violin'', SystemLayout True,
          MeasureEl \<lparr>annotations = [TextExpression ''My Custom Rhythm'' ''above''],
                     mnotes = [\<lparr>pitch = Some (natural_pitch StepG 3),
                                duration = Duration_quarterLength 4\<rparr>]\<rparr>,
          MeasureEl \<lparr>annotations = [],
                     mnotes = [\<lparr>pitch = Some (natural_pitch StepG 3),
                                duration = Duration_quarterLength 2\<rparr>,
                               \<lparr>pitch = Some (natural_pitch StepG 3),
                                duration = Duration_quarterLength 2\<rparr>]\<rparr>]"
proof -
  have i: "instrument_fromString example_library ''Violin'' = Inr ''Violin''"
    by (simp add: example_library_def)
  from rhythm_line_builder_violin[OF i, of "''My Custom Rhythm''"] i show ?thesis
    by (intro conjI) (elim conjE; assumption)+
qed


text \<open>
  Claim C7 fails as stated: the violin is in \<open>EASIEST_NOTE_MAP\<close>, with G3, so the notes
  are at G3 and not at the default C4.
\<close>

theorem rhythm_line_builder_violin_counterexample:
  "EASIEST_NOTE_MAP ''Violin'' = Some (natural_pitch StepG 3)
   \<and> natural_pitch StepG 3 \<noteq> natural_pitch StepC 4
   \<and> create_custom_rhythm_part example_library ''My Custom Rhythm'' [[1], [1 / 2, 1 / 2]] ''Violin'' =
     Inr [InstrumentEl ''Violin'', SystemLayout True,
          MeasureEl \<lparr>annotations = [TextExpression ''My Custom Rhythm'' ''above''],
                     mnotes = [\<lparr>pitch = Some (natural_pitch StepG 3),
                                duration = Duration_quarterLength 4\<rparr>]\<rparr>,
          MeasureEl \<lparr>annotations = [],
                     mnotes = [\<lparr>pitch = Some (natural_pitch StepG 3),
                                duration = Duration_quarterLength 2\<rparr>,
                               \<lparr>pitch = Some (natural_pitch StepG 3),
                                duration = Duration_quarterLength 2\<rparr>]\<rparr>]"
proof -
  have i: "instrument_fromString example_library ''Violin'' = Inr ''Violin''"
    by (simp add: example_library_def)
  have a: "EASIEST_NOTE_MAP ''Violin'' = Some (natural_pitch StepG 3)"
    by (simp add: EASIEST_NOTE_MAP_def)
  have b: "natural_pitch StepG 3 \<noteq> natural_pitch StepC 4"
    by (simp add: natural_pitch_def)
  from a b rhythm_violin[OF i, of "''My Custom Rhythm''"] show ?thesis
    by (intro conjI)
qed


section \<open>Documents: results\<close>

text \<open>
  Claim C8, as the program has it: an empty key list gives a score with no part. An
  empty rhythm pattern gives a score with one part, which holds the instrument object
  and a system-break marker and no measure; the one call that can fail is the library's
  \<open>instrument.fromString\<close>, whose error is passed on.
\<close>

theorem empty_requests:
  "generate_scales_arpeggios_pdf lib [] num_octaves instrument_name = Inr []
   \<and> generate_custom_rhythm_pdf lib [] title_text instrument_name =
       (case instrument_fromString lib instrument_name of
          Inl e \<Rightarrow> Inl e
        | Inr instr_obj \<Rightarrow> Inr [[InstrumentEl instr_obj, SystemLayout True]])"
  by (simp add: generate_scales_arpeggios_pdf_def generate_custom_rhythm_pdf_def
      create_custom_rhythm_part_def Let_def split: sum.splits)


theorem empty_requests_witness:
  "generate_scales_arpeggios_pdf example_library [] 1 ''Piano'' = Inr []
   \<and> generate_custom_rhythm_pdf example_library [] ''My Custom Rhythm'' ''Piano'' =
       Inr [[InstrumentEl ''Piano'', SystemLayout True]]"
  using empty_requests[of example_library 1 "''Piano''" "''My Custom Rhythm''"]
  by (simp add: example_library_def)

text \<open>
  Claim C8 fails as stated for the empty rhythm pattern: the score has one part, not
  none.
\<close>

theorem empty_requests_counterexample:
  "generate_custom_rhythm_pdf example_library [] ''My Custom Rhythm'' ''Violin'' =
     Inr [[InstrumentEl ''Violin'', SystemLayout True]]
   \<and> length (projr (generate_custom_rhythm_pdf example_library [] ''My Custom Rhythm'' ''Violin''))
       = 1"
  by (simp add: generate_custom_rhythm_pdf_def create_custom_rhythm_part_def Let_def
      example_library_def)

section \<open>Shared pitch objects\<close>

text \<open>
  A sequence of notes is a list of addresses into a store of pitch objects; building
  the notes respells the object of each address in turn. Afterwards an object that has
  been touched, once or several times, is the respelling of what it was at the start,
  so each note reads the pitch that the value model gives it.
\<close>

lemma fold_respell_at_nth:
  "a < length store \<Longrightarrow>
     fold respell_at addrs store ! a =
       (if a \<in> set addrs then respelled (store ! a) else store ! a)"
proof (induction addrs arbitrary: store)
  case Nil
  then show ?case by simp
next
  case (Cons x addrs)
  have len: "a < length (respell_at x store)"
    using Cons.prems by (simp add: respell_at_def)
  have nth: "respell_at x store ! a = (if a = x then respelled (store ! a) else store ! a)"
    using Cons.prems by (auto simp add: respell_at_def)
  have "fold respell_at (x # addrs) store ! a = fold respell_at addrs (respell_at x store) ! a"
    by simp
  also have "\<dots> = (if a \<in> set addrs then respelled (respell_at x store ! a)
                    else respell_at x store ! a)"
    by (rule Cons.IH[OF len])
  also have "\<dots> = (if a \<in> set (x # addrs) then respelled (store ! a) else store ! a)"
    unfolding nth by (auto simp: respelled_idem)
  finally show ?case .
qed

lemma shared_pitches_as_values:
  assumes "\<forall>a \<in> set addrs. a < length store"
  shows "map (\<lambda>a. fold respell_at addrs store ! a) addrs =
           map (\<lambda>a. respelled (store ! a)) addrs"
  using assms by (simp add: fold_respell_at_nth)

end
